theory Spec2Isabelle
  imports Complex_Main
begin

section \<open>Errors and results\<close>

text \<open>
  Every Python exception the modelled code can raise is a value.  A function that can
  raise returns \<open>error + 'a\<close>, with \<open>Inl\<close> for the exception.
  \<open>ShapeMismatch s1 s2\<close> is the \<open>AssertionError\<close> of
  \<open>SwinResidualCrossAttention.forward\<close>, carrying the two shapes of its message;
  \<open>AssertionError\<close> is any other failed assertion; \<open>ModuleError\<close> is an
  exception raised inside a learned sub-module that is passed in as a parameter.
\<close>

datatype error =
    RuntimeError
  | ValueError
  | IndexError
  | KeyError
  | NotImplementedError
  | AssertionError
  | ShapeMismatch "nat list" "nat list"
  | UnboundLocalError
  | ModuleError

definition bindE :: "error + 'a \<Rightarrow> ('a \<Rightarrow> error + 'b) \<Rightarrow> error + 'b" where
  "bindE m f = (case m of Inl e \<Rightarrow> Inl e | Inr a \<Rightarrow> f a)"

definition py_assert :: "bool \<Rightarrow> error \<Rightarrow> error + unit" where
  "py_assert c e = (if c then Inr () else Inl e)"


section \<open>Tensors\<close>

text \<open>
  A tensor is its shape and its elements in row-major (logical) order.  Strides and
  storage sharing are not modelled: every operation returns the value of its result.
\<close>

record 'a tensor =
  shape :: "nat list"
  data :: "'a list"

text \<open>\<open>t.dim()\<close> and \<open>t.numel()\<close>.\<close>

definition ndim :: "'a tensor \<Rightarrow> nat" where
  "ndim t = length (shape t)"

definition numel :: "'a tensor \<Rightarrow> nat" where
  "numel t = prod_list (shape t)"

text \<open>
  Row-major addressing: \<open>ravel s idx\<close> is the position of the multi-index \<open>idx\<close>
  in a tensor of shape \<open>s\<close>, \<open>unravel s k\<close> the multi-index of position \<open>k\<close>.
\<close>

fun ravel :: "nat list \<Rightarrow> nat list \<Rightarrow> nat" where
  "ravel (n # ns) (i # js) = i * prod_list ns + ravel ns js"
| "ravel _ _ = 0"

fun unravel :: "nat list \<Rightarrow> nat \<Rightarrow> nat list" where
  "unravel [] k = []"
| "unravel (n # ns) k = (k div prod_list ns) # unravel ns (k mod prod_list ns)"

definition valid_index :: "nat list \<Rightarrow> nat list \<Rightarrow> bool" where
  "valid_index s idx = list_all2 (<) idx s"

definition elem :: "'a tensor \<Rightarrow> nat list \<Rightarrow> 'a" where
  "elem t idx = data t ! ravel (shape t) idx"

definition tabulate :: "nat list \<Rightarrow> (nat list \<Rightarrow> 'a) \<Rightarrow> 'a tensor" where
  "tabulate s f = \<lparr> shape = s, data = map (\<lambda>k. f (unravel s k)) [0..<prod_list s] \<rparr>"

definition wf_tensor :: "'a tensor \<Rightarrow> bool" where
  "wf_tensor t = (length (data t) = prod_list (shape t))"

text \<open>
  A dimension argument may be negative and then counts from the end; out of range it
  raises \<open>IndexError\<close>.
\<close>

definition norm_dim :: "nat \<Rightarrow> int \<Rightarrow> error + nat" where
  "norm_dim n d =
     (if - int n \<le> d \<and> d < int n then Inr (nat (if d < 0 then d + int n else d))
      else Inl IndexError)"

fun mapE :: "('a \<Rightarrow> error + 'b) \<Rightarrow> 'a list \<Rightarrow> error + 'b list" where
  "mapE f [] = Inr []"
| "mapE f (x # xs) = bindE (f x) (\<lambda>y. bindE (mapE f xs) (\<lambda>ys. Inr (y # ys)))"

fun index_of :: "'a \<Rightarrow> 'a list \<Rightarrow> nat" where
  "index_of q [] = 0"
| "index_of q (d # ds) = (if d = q then 0 else Suc (index_of q ds))"

text \<open>
  \<open>Tensor.unfold(dimension, size, step)\<close>: all slices of length \<open>size\<close> along
  \<open>dimension\<close>, \<open>step\<close> apart; that dimension becomes
  \<open>(sizedim - size) div step + 1\<close> and a new last dimension of length \<open>size\<close> is
  appended.  It raises when \<open>size\<close> exceeds the dimension or \<open>step\<close> is not positive.
\<close>

definition unfold :: "'a tensor \<Rightarrow> int \<Rightarrow> nat \<Rightarrow> nat \<Rightarrow> error + 'a tensor" where
  "unfold t dimension sz step =
     bindE (norm_dim (ndim t) dimension) (\<lambda>d.
       let sizedim = shape t ! d in
       if sizedim < sz \<or> step = 0 then Inl RuntimeError
       else Inr (tabulate ((shape t)[d := (sizedim - sz) div step + 1] @ [sz])
                   (\<lambda>idx. elem t ((butlast idx)[d := idx ! d * step + last idx]))))"

text \<open>
  \<open>Tensor.permute(*dims)\<close>: dimension \<open>k\<close> of the result is dimension \<open>dims[k]\<close>
  of the argument.  It raises when the number of dimensions given is not the tensor's,
  or a dimension is repeated.
\<close>

definition permute :: "'a tensor \<Rightarrow> int list \<Rightarrow> error + 'a tensor" where
  "permute t dims =
     (if length dims \<noteq> ndim t then Inl RuntimeError
      else bindE (mapE (norm_dim (ndim t)) dims) (\<lambda>ds.
        if \<not> distinct ds then Inl RuntimeError
        else Inr (tabulate (map (\<lambda>d. shape t ! d) ds)
                    (\<lambda>idx. elem t (map (\<lambda>q. idx ! index_of q ds) [0..<ndim t])))))"

text \<open>
  \<open>Tensor.reshape(*shape)\<close> with every size given: the same elements in the same
  row-major order under the new shape; it raises when the element counts differ.
  \<open>Tensor.view\<close> returns the same value (the tensors here are contiguous).
\<close>

definition reshape :: "'a tensor \<Rightarrow> nat list \<Rightarrow> error + 'a tensor" where
  "reshape t s =
     (if prod_list s = numel t then Inr \<lparr> shape = s, data = data t \<rparr> else Inl RuntimeError)"

definition view :: "'a tensor \<Rightarrow> nat list \<Rightarrow> error + 'a tensor" where
  "view t s = reshape t s"

text \<open>
  \<open>t.reshape(-1, *rest)\<close>: the first size is inferred from the element count; it raises
  when it cannot be.
\<close>

definition reshape_infer :: "'a tensor \<Rightarrow> nat list \<Rightarrow> error + 'a tensor" where
  "reshape_infer t rest =
     (let known = prod_list rest in
      if known = 0 \<or> numel t mod known \<noteq> 0 then Inl RuntimeError
      else Inr \<lparr> shape = (numel t div known) # rest, data = data t \<rparr>)"

text \<open>
  \<open>F.pad(t, (0, p), "constant", v)\<close>: \<open>p\<close> copies of \<open>v\<close> after the last dimension.
\<close>

definition pad_last :: "'a tensor \<Rightarrow> nat \<Rightarrow> 'a \<Rightarrow> 'a tensor" where
  "pad_last t p v =
     (let C = last (shape t) in
      tabulate (butlast (shape t) @ [C + p]) (\<lambda>idx. if last idx < C then elem t idx else v))"

text \<open>
  Star-unpacking of a shape, \<open>*B, H, W, C = t.shape\<close> and its variants with four and
  five named sizes: \<open>ValueError\<close> when the shape is too short.
\<close>

definition unpack3 :: "nat list \<Rightarrow> error + (nat list \<times> nat \<times> nat \<times> nat)" where
  "unpack3 s =
     (let n = length s in
      if n < 3 then Inl ValueError
      else Inr (take (n - 3) s, s ! (n - 3), s ! (n - 2), s ! (n - 1)))"

definition unpack4 :: "nat list \<Rightarrow> error + (nat list \<times> nat \<times> nat \<times> nat \<times> nat)" where
  "unpack4 s =
     (let n = length s in
      if n < 4 then Inl ValueError
      else Inr (take (n - 4) s, s ! (n - 4), s ! (n - 3), s ! (n - 2), s ! (n - 1)))"

definition unpack5 ::
  "nat list \<Rightarrow> error + (nat list \<times> nat \<times> nat \<times> nat \<times> nat \<times> nat)" where
  "unpack5 s =
     (let n = length s in
      if n < 5 then Inl ValueError
      else Inr (take (n - 5) s, s ! (n - 5), s ! (n - 4), s ! (n - 3), s ! (n - 2), s ! (n - 1)))"


section \<open>models/xswin.py\<close>

text \<open>\<open>_pad_expansion\<close>.\<close>

definition pad_expansion :: "'a::zero tensor \<Rightarrow> bool \<Rightarrow> error + 'a tensor" where
  "pad_expansion x distributed =
     bindE (unpack3 (shape x)) (\<lambda>(B, H, W, C).
       let pad_c = (4 - C mod 4) mod 4 in
       if pad_c = 0 then Inr x
       else if \<not> distributed then Inr (pad_last x pad_c 0)
       else Inl NotImplementedError)"

text \<open>\<open>_patch_expanding_pad\<close>.\<close>

definition patch_expanding_pad :: "'a::zero tensor \<Rightarrow> error + 'a tensor" where
  "patch_expanding_pad x =
     bindE (unpack3 (shape x)) (\<lambda>(B, H_HALF, W_HALF, C_QUAD).
       let C = C_QUAD div 4 in
       bindE (pad_expansion x False) (\<lambda>x.
       bindE (view x (B @ [H_HALF, W_HALF, 2, 2, C])) (\<lambda>x.
       bindE (permute x [0, 1, 3, 2, 4, 5]) (\<lambda>x.
       view x (B @ [H_HALF * 2, W_HALF * 2, C])))))"

text \<open>\<open>_extract_windows\<close>; a stride of \<open>None\<close> defaults to the window size.\<close>

definition extract_windows ::
  "'a tensor \<Rightarrow> nat \<Rightarrow> nat \<Rightarrow> nat option \<Rightarrow> nat option \<Rightarrow> error + 'a tensor" where
  "extract_windows feature_map window_height window_width stride_height stride_width =
     (let stride_height = (case stride_height of None \<Rightarrow> window_height | Some s \<Rightarrow> s);
          stride_width = (case stride_width of None \<Rightarrow> window_width | Some s \<Rightarrow> s)
      in
       bindE (unpack3 (shape feature_map)) (\<lambda>(B, H, W, C).
       bindE (unfold feature_map (- 3) window_height stride_height) (\<lambda>unfolded_height.
       bindE (unfold unfolded_height (- 3) window_width stride_width) (\<lambda>unfolded_both.
       bindE (permute unfolded_both [0, - 5, - 4, - 2, - 1, - 3]) (\<lambda>windows.
       bindE (unpack5 (shape windows)) (\<lambda>(B, H_unfolded, W_unfolded, H_window, W_window, C).
       reshape windows (B @ [H_unfolded, W_unfolded, window_height * window_width, C])))))))"

text \<open>
  Lines 140 to 142 of \<open>SwinResidualCrossAttention.forward\<close>: the merge of the attended
  windows back into a feature map.
\<close>

definition merge_windows ::
  "'a tensor \<Rightarrow> nat list \<Rightarrow> nat \<Rightarrow> nat \<Rightarrow> nat \<Rightarrow> nat \<Rightarrow> nat \<Rightarrow> error + 'a tensor" where
  "merge_windows attended_residuals B H W window_height window_width C =
     bindE (reshape attended_residuals (B @ [H, W, window_height, window_width, C])) (\<lambda>a.
     bindE (permute a [0, - 5, - 3, - 4, - 2, - 1]) (\<lambda>a.
     reshape a (B @ [H * window_height, W * window_width, C])))"

text \<open>
  \<open>SwinResidualCrossAttention.forward\<close>.  The learned \<open>nn.MultiheadAttention\<close> is the
  parameter \<open>cross_attention\<close>; \<open>None\<close> from it is an exception raised inside it.
\<close>

definition forward ::
  "('a tensor \<Rightarrow> 'a tensor \<Rightarrow> 'a tensor \<Rightarrow> 'a tensor option) \<Rightarrow> nat \<Rightarrow> nat \<Rightarrow>
     'a tensor \<Rightarrow> 'a tensor \<Rightarrow> error + 'a tensor" where
  "forward cross_attention window_height window_width x residual =
     bindE (extract_windows x window_height window_width None None) (\<lambda>x_context.
     bindE (extract_windows residual window_height window_width None None) (\<lambda>residual_context.
     bindE (py_assert (shape x_context = shape residual_context)
              (ShapeMismatch (shape x_context) (shape residual_context))) (\<lambda>_.
     bindE (unpack4 (shape residual_context)) (\<lambda>(B, H, W, WINDOW, C).
     bindE (reshape_infer x_context [WINDOW, C]) (\<lambda>Q.
     bindE (reshape_infer residual_context [WINDOW, C]) (\<lambda>K.
     bindE (case cross_attention Q K K of None \<Rightarrow> Inl ModuleError | Some a \<Rightarrow> Inr a)
       (\<lambda>attended_residuals.
     merge_windows attended_residuals B H W window_height window_width C)))))))"

text \<open>
  \<open>_extract_windows\<close> with the default strides followed by the merge, with the sizes
  read from the windowed shape as line 133 of \<open>forward\<close> reads them.
\<close>

definition extract_then_merge :: "'a tensor \<Rightarrow> nat \<Rightarrow> nat \<Rightarrow> error + 'a tensor" where
  "extract_then_merge x window_height window_width =
     bindE (extract_windows x window_height window_width None None) (\<lambda>windows.
     bindE (unpack4 (shape windows)) (\<lambda>(B, H, W, WINDOW, C).
     merge_windows windows B H W window_height window_width C))"


subsection \<open>The construction of \<open>XNetSwinTransformer\<close>\<close>







text \<open>
  A Python float is an IEEE 754 binary64 number, and every operation on floats returns
  the exact result rounded to the nearest such number, ties to the even significand.
  \<open>round_double\<close> is that rounding on the reals: \<open>binade x\<close> is the exponent of \<open>x\<close>,
  not below the exponent -1022 of the subnormal numbers, and the result is the multiple
  of \<open>2 powi (binade x - 52)\<close> nearest to \<open>x\<close>.  Overflow to infinity beyond
  \<open>2 powi 1024\<close> is not modelled.
\<close>

definition round_half_even :: "real \<Rightarrow> int" where
  "round_half_even y =
     (let f = \<lfloor>y\<rfloor> in
      if y - of_int f < 1 / 2 then f
      else if 1 / 2 < y - of_int f then f + 1
      else if even f then f else f + 1)"

definition binade :: "real \<Rightarrow> int" where
  "binade x = max \<lfloor>log 2 \<bar>x\<bar>\<rfloor> (- 1022)"

definition round_double :: "real \<Rightarrow> real" where
  "round_double x =
     (if x = 0 then 0
      else of_int (round_half_even (x * 2 powi (52 - binade x))) * 2 powi (binade x - 52))"

















section \<open>models/modules/geodesic\_loss.py\<close>

text \<open>
  A batch of transforms is a list of matrices, a matrix a list of rows; every transform
  has at least three rows of at least four entries (3x4 or 4x4).  Floats are modelled as
  exact reals; \<open>None\<close> for a loss term is the NaN that \<open>torch.mean\<close> returns on an
  empty tensor.
\<close>

type_synonym matrix = "real list list"

text \<open>The slices \<open>x[:, :3, 3]\<close> and \<open>x[:, :3, :3]\<close>.\<close>

definition slice_T :: "matrix list \<Rightarrow> real list list" where
  "slice_T x = map (\<lambda>m. map (\<lambda>row. row ! 3) (take 3 m)) x"

definition slice_R :: "matrix list \<Rightarrow> matrix list" where
  "slice_R x = map (\<lambda>m. map (take 3) (take 3 m)) x"

text \<open>
  Element-wise difference, \<open>torch.norm\<close> without a dimension (the square root of the sum
  of all squared entries), \<open>transpose(-2, -1)\<close>, \<open>torch.bmm\<close>,
  \<open>torch.diagonal(...).sum(-1)\<close>, \<open>torch.clamp\<close> and \<open>torch.mean\<close>.
\<close>

definition mat_sub :: "matrix \<Rightarrow> matrix \<Rightarrow> matrix" where
  "mat_sub a b = map2 (map2 (-)) a b"

definition norm_all :: "matrix \<Rightarrow> real" where
  "norm_all a = sqrt (sum_list (map (\<lambda>row. sum_list (map (\<lambda>v. v\<^sup>2) row)) a))"

definition mat_transpose :: "matrix \<Rightarrow> matrix" where
  "mat_transpose m =
     (case m of [] \<Rightarrow> [] | r # _ \<Rightarrow> map (\<lambda>j. map (\<lambda>row. row ! j) m) [0..<length r])"

definition matmul :: "matrix \<Rightarrow> matrix \<Rightarrow> matrix" where
  "matmul a b =
     map (\<lambda>row. map (\<lambda>j. sum_list (map (\<lambda>k. row ! k * b ! k ! j) [0..<length row]))
                  [0..<(case b of [] \<Rightarrow> 0 | r # _ \<Rightarrow> length r)]) a"

definition bmm :: "matrix list \<Rightarrow> matrix list \<Rightarrow> matrix list" where
  "bmm a b = map2 matmul a b"

definition diagonal_sum :: "matrix \<Rightarrow> real" where
  "diagonal_sum m = sum_list (map (\<lambda>i. m ! i ! i) [0..<min (length m) (case m of [] \<Rightarrow> 0 | r # _ \<Rightarrow> length r)])"

definition clamp :: "real \<Rightarrow> real \<Rightarrow> real \<Rightarrow> real" where
  "clamp v lo hi = min (max v lo) hi"

definition mean :: "real list \<Rightarrow> real option" where
  "mean xs = (if xs = [] then None else Some (sum_list xs / real (length xs)))"

definition eye3 :: matrix where
  "eye3 = [[1, 0, 0], [0, 1, 0], [0, 0, 1]]"

text \<open>
  \<open>SpecialEuclideanGeodesicLoss.forward\<close>, term by term: line 30, lines 32 to 43, lines 48
  to 51, and the stack of the terms returned with \<open>components=True\<close>.  \<open>SO_weight\<close> is
  \<open>None\<close> when it is not a number, and then there is no orthogonality term.  On line
  30 \<open>torch.norm\<close> returns a single number, and its \<open>.mean()\<close> is that number.  Reading
  column 3 of a transform with fewer than four columns raises \<open>IndexError\<close>, and batches
  of different sizes make \<open>torch.bmm\<close> raise; \<open>transforms\<close> is the documented domain,
  matrices of at least three rows and four columns.
\<close>

definition translation_loss :: "matrix list \<Rightarrow> matrix list \<Rightarrow> real" where
  "translation_loss predicted_transform target_transform =
     (let p_T = slice_T predicted_transform; t_T = slice_T target_transform
      in norm_all (mat_sub p_T t_T))"

definition rotation_loss :: "matrix list \<Rightarrow> matrix list \<Rightarrow> real option" where
  "rotation_loss predicted_transform target_transform =
     (let p_R = slice_R predicted_transform; t_R = slice_R target_transform;
          relative_rotation = bmm p_R (map mat_transpose t_R);
          batch_trace = map diagonal_sum relative_rotation;
          cos_theta = map (\<lambda>t. (t - 1) / 2) batch_trace;
          cos_theta = map (\<lambda>c. clamp c (- 0.9999) 0.9999) cos_theta;
          theta = map arccos cos_theta
      in mean theta)"

definition ortho_loss :: "matrix list \<Rightarrow> real option" where
  "ortho_loss predicted_transform =
     (let p_R = slice_R predicted_transform
      in mean (map (\<lambda>m. norm_all (mat_sub m eye3)) (bmm p_R (map mat_transpose p_R))))"

definition four_columns :: "matrix list \<Rightarrow> bool" where
  "four_columns x = list_all (\<lambda>m. list_all (\<lambda>row. 4 \<le> length row) m) x"

definition transforms :: "matrix list \<Rightarrow> bool" where
  "transforms x = (four_columns x \<and> list_all (\<lambda>m. 3 \<le> length m) x)"

definition geodesic_forward ::
  "real option \<Rightarrow> matrix list \<Rightarrow> matrix list \<Rightarrow> error + real option list" where
  "geodesic_forward SO_weight predicted_transform target_transform =
     (if four_columns predicted_transform \<and> four_columns target_transform
      then
        if length predicted_transform = length target_transform
        then Inr ([rotation_loss predicted_transform target_transform,
                   Some (translation_loss predicted_transform target_transform)]
                  @ (case SO_weight of
                       None \<Rightarrow> []
                     | Some w \<Rightarrow> [map_option (\<lambda>l. l * w) (ortho_loss predicted_transform)]))
        else Inl RuntimeError
      else Inl IndexError)"

text \<open>
  The translation term in the words of the specification: the mean over the batch of
  the Euclidean norm of each sample's translation difference.
\<close>

definition translation_loss_spec :: "matrix list \<Rightarrow> matrix list \<Rightarrow> real option" where
  "translation_loss_spec predicted_transform target_transform =
     mean (map (\<lambda>(p, t). sqrt (sum_list (map (\<lambda>v. v\<^sup>2) (map2 (-) p t))))
             (zip (slice_T predicted_transform) (slice_T target_transform)))"

text \<open>Example transforms: the identity, and the identity moved by \<open>d\<close> along x.\<close>

definition identity_transform :: matrix where
  "identity_transform = [[1, 0, 0, 0], [0, 1, 0, 0], [0, 0, 1, 0]]"

definition shifted :: "real \<Rightarrow> matrix" where
  "shifted d = [[1, 0, 0, d], [0, 1, 0, 0], [0, 0, 1, 0]]"



section \<open>models/modules/modulated/vit\_block.py\<close>

text \<open>
  The sub-modules of \<open>ViTEncoderBlock_Modulated\<close> (\<open>Modulator\<close>, the layer norms,
  the multi-head attention, dropout, the MLP block) are learned or external; they are
  parameters of the model, as is the element-wise residual addition.
\<close>

record 'a vit_block =
  mod1 :: "'a tensor \<Rightarrow> error + 'a tensor"
  mod2 :: "'a tensor \<Rightarrow> error + 'a tensor"
  ln_1 :: "'a tensor \<Rightarrow> error + 'a tensor"
  self_attention :: "'a tensor \<Rightarrow> 'a tensor \<Rightarrow> 'a tensor \<Rightarrow> error + 'a tensor"
  dropout :: "'a tensor \<Rightarrow> error + 'a tensor"
  ln_2 :: "'a tensor \<Rightarrow> error + 'a tensor"
  mlp :: "'a tensor \<Rightarrow> error + 'a tensor"
  add :: "'a tensor \<Rightarrow> 'a tensor \<Rightarrow> error + 'a tensor"

text \<open>
  A local variable of a Python function is \<open>None\<close> until its first assignment;
  reading it then raises \<open>UnboundLocalError\<close>.
\<close>

definition read_local :: "'a option \<Rightarrow> error + 'a" where
  "read_local v = (case v of None \<Rightarrow> Inl UnboundLocalError | Some a \<Rightarrow> Inr a)"

text \<open>
  \<open>ViTEncoderBlock_Modulated.forward\<close>.  The local \<open>x\<close> is unbound when line 41,
  \<open>x = self.mod1(x)\<close>, reads it.
\<close>

definition vit_forward :: "'a vit_block \<Rightarrow> 'a tensor \<Rightarrow> error + 'a tensor" where
  "vit_forward self input =
     bindE (py_assert (ndim input = 3) AssertionError) (\<lambda>_.
     let x = None in
     bindE (read_local x) (\<lambda>xv.
     bindE (mod1 self xv) (\<lambda>x.
     bindE (ln_1 self input) (\<lambda>x.
     bindE (self_attention self x x x) (\<lambda>x.
     bindE (dropout self x) (\<lambda>x.
     bindE (add self x input) (\<lambda>x.
     bindE (mod2 self x) (\<lambda>x.
     bindE (ln_2 self x) (\<lambda>y.
     bindE (mlp self y) (\<lambda>y.
     add self x y))))))))))"

definition id_block :: "int vit_block" where
  "id_block = \<lparr> mod1 = Inr, mod2 = Inr, ln_1 = Inr, self_attention = (\<lambda>q k v. Inr q),
     dropout = Inr, ln_2 = Inr, mlp = Inr, add = (\<lambda>a b. Inr a) \<rparr>"


section \<open>pose\_estimation/pose\_data\_class.py\<close>

subsection \<open>Dictionaries and strings\<close>

text \<open>
  A Python \<open>dict\<close> is an association list in insertion order: assigning to a key that is
  present replaces its value in place, assigning to a new key appends it.  Reading a
  missing key raises \<open>KeyError\<close>.
\<close>

type_synonym ('k, 'v) dict = "('k \<times> 'v) list"

fun dict_set :: "('k, 'v) dict \<Rightarrow> 'k \<Rightarrow> 'v \<Rightarrow> ('k, 'v) dict" where
  "dict_set [] k v = [(k, v)]"
| "dict_set ((k', v') # d) k v = (if k' = k then (k, v) # d else (k', v') # dict_set d k v)"

definition dict_has :: "('k, 'v) dict \<Rightarrow> 'k \<Rightarrow> bool" where
  "dict_has d k = (map_of d k \<noteq> None)"

definition dict_get :: "('k, 'v) dict \<Rightarrow> 'k \<Rightarrow> error + 'v" where
  "dict_get d k = (case map_of d k of None \<Rightarrow> Inl KeyError | Some v \<Rightarrow> Inr v)"

definition dict_keys :: "('k, 'v) dict \<Rightarrow> 'k list" where
  "dict_keys d = map fst d"

text \<open>\<open>s.split(c)\<close> for a one-character separator, and \<open>sub in s\<close> on strings.\<close>

fun split_on :: "char \<Rightarrow> string \<Rightarrow> string list" where
  "split_on c [] = [[]]"
| "split_on c (x # xs) =
     (if x = c then [] # split_on c xs
      else (case split_on c xs of [] \<Rightarrow> [[x]] | w # ws \<Rightarrow> (x # w) # ws))"

fun starts_with :: "string \<Rightarrow> string \<Rightarrow> bool" where
  "starts_with [] s = True"
| "starts_with (x # xs) [] = False"
| "starts_with (x # xs) (y # ys) = (x = y \<and> starts_with xs ys)"

fun contains :: "string \<Rightarrow> string \<Rightarrow> bool" where
  "contains sub [] = (sub = [])"
| "contains sub (c # cs) = (starts_with sub (c # cs) \<or> contains sub cs)"

text \<open>\<open>os.path.join(a, b)\<close> on POSIX paths.\<close>

definition path_join :: "string \<Rightarrow> string \<Rightarrow> string" where
  "path_join a b =
     (if starts_with ''/'' b then b
      else if a = [] \<or> last a = CHR ''/'' then a @ b
      else a @ ''/'' @ b)"

fun foldE :: "('s \<Rightarrow> 'a \<Rightarrow> error + 's) \<Rightarrow> 'a list \<Rightarrow> 's \<Rightarrow> error + 's" where
  "foldE f [] s = Inr s"
| "foldE f (x # xs) s = bindE (f s x) (foldE f xs)"

subsection \<open>The data model\<close>

text \<open>
  A key is (level, scene, variant).  A record of the dataset is a dict from strings to
  values: the key under \<open>"key"\<close>, the unpickled metadata under \<open>"meta"\<close>, and under
  \<open>"color"\<close>, \<open>"depth"\<close> and \<open>"label"\<close> the lazy loader, a closure represented by
  the file path and the normalizer it captured.
\<close>

type_synonym key = "int \<times> int \<times> int"

datatype 'm val = KeyVal key | MetaVal 'm | Loader string "nat option"

type_synonym 'm entry = "(string, 'm val) dict"

type_synonym 'm nested = "(int, (int, (int, 'm entry) dict) dict) dict"

text \<open>
  What the class reads from outside: the built-in \<open>int\<close> on a string and
  \<open>pickle.load\<close> on a file (\<open>None\<close> when they raise), \<open>os.listdir\<close>, and the
  objects table that \<open>organize_objects\<close> reads from the CSV file with numpy.
\<close>

record ('m, 'o) env =
  int_of :: "string \<Rightarrow> int option"
  pickle_load :: "string \<Rightarrow> 'm option"
  listdir :: "string \<Rightarrow> error + string list"
  organize_objects :: "string \<Rightarrow> error + 'o"

record ('m, 'o) PoseData =
  data_path :: string
  models_path :: string
  objects :: 'o
  pdata :: "(key, 'm entry) dict"
  nested_data :: "'m nested"
  keylist :: "key list"

definition CSV_FILENAME :: string where
  "CSV_FILENAME = ''objects_v1.csv''"

definition DATA_FOLDERNAME :: string where
  "DATA_FOLDERNAME = ''v2.2''"

definition components :: "string list" where
  "components = [''color'', ''depth'', ''label'', ''meta'']"

text \<open>\<open>get_component\<close>, the inner function of \<open>organize_data\<close>.\<close>

definition get_component :: "string \<Rightarrow> error + string" where
  "get_component filename =
     (case filter (\<lambda>component. contains component filename) components of
        [] \<Rightarrow> Inl KeyError
      | component # _ \<Rightarrow> Inr component)"

text \<open>
  \<open>[int(idx) for idx in filename.split("_")[0].split("-")]\<close>, unpacked into three names.
\<close>

definition parse_key :: "(string \<Rightarrow> int option) \<Rightarrow> string \<Rightarrow> error + key" where
  "parse_key to_int filename =
     (case split_on CHR ''_'' filename of
        [] \<Rightarrow> Inl IndexError
      | first # _ \<Rightarrow>
          bindE (mapE (\<lambda>idx. case to_int idx of None \<Rightarrow> Inl ValueError | Some i \<Rightarrow> Inr i)
                   (split_on CHR ''-'' first))
            (\<lambda>ids. case ids of
                      [level, scene, variant] \<Rightarrow> Inr (level, scene, variant)
                    | _ \<Rightarrow> Inl ValueError))"

text \<open>
  The nested assignment \<open>nested[level][scene][variant] = e\<close>, with the missing inner
  dicts created empty first, as lines 102 to 107 and 170 to 175 do.
\<close>

definition get_or :: "('k, 'v) dict \<Rightarrow> 'k \<Rightarrow> 'v \<Rightarrow> 'v" where
  "get_or d k dflt = (case map_of d k of None \<Rightarrow> dflt | Some v \<Rightarrow> v)"

definition nested_set :: "'m nested \<Rightarrow> key \<Rightarrow> 'm entry \<Rightarrow> 'm nested" where
  "nested_set nested k e =
     (case k of (level, scene, variant) \<Rightarrow>
        let scenes = get_or nested level [];
            variants = get_or scenes scene []
        in dict_set nested level (dict_set scenes scene (dict_set variants variant e)))"

definition nested_get :: "'m nested \<Rightarrow> key \<Rightarrow> 'm entry option" where
  "nested_get nested k =
     (case k of (level, scene, variant) \<Rightarrow>
        (case map_of nested level of
           None \<Rightarrow> None
         | Some scenes \<Rightarrow>
             (case map_of scenes scene of
                None \<Rightarrow> None
              | Some variants \<Rightarrow> map_of variants variant)))"

definition nested_lookup :: "'m nested \<Rightarrow> key \<Rightarrow> error + 'm entry" where
  "nested_lookup nested k = (case nested_get nested k of None \<Rightarrow> Inl KeyError | Some e \<Rightarrow> Inr e)"

text \<open>One iteration of the loop of \<open>organize_data\<close> over the directory listing.\<close>

definition organize_file ::
  "('m, 'o) env \<Rightarrow> string \<Rightarrow> (key, 'm entry) dict \<times> 'm nested \<Rightarrow> string \<Rightarrow>
     error + ((key, 'm entry) dict \<times> 'm nested)" where
  "organize_file io dpath state filename =
     (case state of (dat, nested) \<Rightarrow>
        let filepath = path_join dpath filename in
        bindE (get_component filename) (\<lambda>component.
        bindE (parse_key (int_of io) filename) (\<lambda>key.
          let dat = (if dict_has dat key then dat else dict_set dat key [(''key'', KeyVal key)]);
              nested = (case nested_get nested key of
                          None \<Rightarrow> nested_set nested key [(''key'', KeyVal key)]
                        | Some _ \<Rightarrow> nested)
          in
          bindE (if component = ''meta''
                 then (case pickle_load io filepath of
                         None \<Rightarrow> Inl RuntimeError
                       | Some m \<Rightarrow> Inr (MetaVal m))
                 else
                   (let normalizer = (if component = ''color'' then Some 255
                                      else if component = ''depth'' then Some 1000
                                      else None)
                    in Inr (Loader filepath normalizer)))
            (\<lambda>entry.
          bindE (dict_get dat key) (\<lambda>flat_record.
          bindE (nested_lookup nested key) (\<lambda>nested_record.
            Inr (dict_set dat key (dict_set flat_record component entry),
                 nested_set nested key (dict_set nested_record component entry))))))))"

definition organize_data ::
  "('m, 'o) env \<Rightarrow> string \<Rightarrow> error + ((key, 'm entry) dict \<times> 'm nested)" where
  "organize_data io dpath =
     bindE (listdir io dpath) (\<lambda>filenames. foldE (organize_file io dpath) filenames ([], []))"

text \<open>\<open>PoseData.__init__\<close>.\<close>

definition PoseData_init ::
  "('m, 'o) env \<Rightarrow> string \<Rightarrow> string \<Rightarrow> ('o \<times> (key, 'm entry) dict \<times> 'm nested) option \<Rightarrow>
     error + ('m, 'o) PoseData" where
  "PoseData_init io dpath mpath split_processed_data =
     bindE (case split_processed_data of
              Some t \<Rightarrow> Inr t
            | None \<Rightarrow>
                bindE (organize_objects io (path_join dpath CSV_FILENAME)) (\<lambda>objs.
                bindE (organize_data io (path_join dpath DATA_FOLDERNAME)) (\<lambda>(dat, nested).
                Inr (objs, dat, nested))))
       (\<lambda>(objs, dat, nested).
          Inr \<lparr> data_path = dpath, models_path = mpath, objects = objs, pdata = dat,
                nested_data = nested, keylist = dict_keys dat \<rparr>)"

text \<open>\<open>__len__\<close> and \<open>__call__\<close>.\<close>

definition len :: "('m, 'o) PoseData \<Rightarrow> nat" where
  "len self = length (keylist self)"

definition call :: "('m, 'o) PoseData \<Rightarrow> int \<Rightarrow> error + 'm entry" where
  "call self idx =
     (let n = int (length (keylist self)); j = (if idx < 0 then idx + n else idx)
      in if 0 \<le> j \<and> j < n then dict_get (pdata self) (keylist self ! nat j) else Inl IndexError)"

text \<open>
  \<open>__getitem__\<close>.  The argument is an integer or a tuple of integers; the value walked
  through is the nested mapping, a level's scenes, a scene's variants or a record.  A
  record is a dict with string keys, so indexing it with an integer raises \<open>KeyError\<close>.
\<close>

datatype indices = IntIndex int | TupleIndex "int list"

datatype 'm item =
    Levels "'m nested"
  | Scenes "(int, (int, 'm entry) dict) dict"
  | Variants "(int, 'm entry) dict"
  | Record "'m entry"

fun subscript :: "'m item \<Rightarrow> int \<Rightarrow> error + 'm item" where
  "subscript (Levels d) i = bindE (dict_get d i) (\<lambda>v. Inr (Scenes v))"
| "subscript (Scenes d) i = bindE (dict_get d i) (\<lambda>v. Inr (Variants v))"
| "subscript (Variants d) i = bindE (dict_get d i) (\<lambda>v. Inr (Record v))"
| "subscript (Record d) i = Inl KeyError"

definition getitem :: "('m, 'o) PoseData \<Rightarrow> indices \<Rightarrow> error + 'm item" where
  "getitem self idx =
     (let indices = (case idx of IntIndex i \<Rightarrow> [1] | TupleIndex t \<Rightarrow> t) in
      case indices of
        [level, scene, variant] \<Rightarrow>
          bindE (dict_get (pdata self) (level, scene, variant)) (\<lambda>e. Inr (Record e))
      | _ \<Rightarrow> foldE subscript indices (Levels (nested_data self)))"

text \<open>\<open>level_split\<close>: one iteration of its loop over the keys, and the method.\<close>

definition level_split_key ::
  "('m, 'o) PoseData \<Rightarrow> int \<Rightarrow> (key, 'm entry) dict \<times> 'm nested \<Rightarrow> key \<Rightarrow>
     error + ((key, 'm entry) dict \<times> 'm nested)" where
  "level_split_key self selected_level state k =
     (case state of (split_data, split_nested_data) \<Rightarrow>
        if fst k \<noteq> selected_level then Inr (split_data, split_nested_data)
        else
          bindE (dict_get (pdata self) k) (\<lambda>e.
            Inr (dict_set split_data k e,
                 (case nested_get split_nested_data k of
                    None \<Rightarrow> nested_set split_nested_data k e
                  | Some _ \<Rightarrow> split_nested_data))))"

definition level_split ::
  "('m, 'o) env \<Rightarrow> ('m, 'o) PoseData \<Rightarrow> int \<Rightarrow> error + ('m, 'o) PoseData" where
  "level_split io self selected_level =
     bindE (foldE (level_split_key self selected_level) (dict_keys (pdata self)) ([], []))
       (\<lambda>(split_data, split_nested_data).
          PoseData_init io (data_path self) (models_path self)
            (Some (objects self, split_data, split_nested_data)))"

text \<open>The number of (level, scene, variant) leaves of a nested mapping.\<close>

definition num_leaves :: "'m nested \<Rightarrow> nat" where
  "num_leaves nested =
     sum_list (map (\<lambda>(level, scenes).
       sum_list (map (\<lambda>(scene, variants). length variants) scenes)) nested)"


text \<open>
  The leaves under one level, and the invariant of the loop of \<open>organize_data\<close>: the
  flat mapping and the nested mapping hold the same keys, the flat keys are distinct,
  and there are as many of them as leaves.
\<close>

definition scene_leaves :: "(int, (int, 'm entry) dict) dict \<Rightarrow> nat" where
  "scene_leaves scenes = sum_list (map (\<lambda>(scene, variants). length variants) scenes)"

definition index_inv :: "(key, 'm entry) dict \<times> 'm nested \<Rightarrow> bool" where
  "index_inv state =
     (case state of (dat, nested) \<Rightarrow>
        (\<forall>k. dict_has dat k = (nested_get nested k \<noteq> None))
        \<and> distinct (dict_keys dat) \<and> length (dict_keys dat) = num_leaves nested)"

text \<open>
  An example directory: a decimal \<open>int\<close>, a \<open>pickle.load\<close> that returns the unit value, and
  three files of two records.
\<close>

definition digit_of :: "char \<Rightarrow> int option" where
  "digit_of c =
     (let n = (of_char c :: nat) in if 48 \<le> n \<and> n \<le> 57 then Some (int n - 48) else None)"

fun decimal :: "string \<Rightarrow> int \<Rightarrow> int option" where
  "decimal [] acc = Some acc"
| "decimal (c # cs) acc = (case digit_of c of None \<Rightarrow> None | Some d \<Rightarrow> decimal cs (10 * acc + d))"

definition demo_env :: "(unit, unit) env" where
  "demo_env = \<lparr> int_of = (\<lambda>s. if s = [] then None else decimal s 0),
                pickle_load = (\<lambda>p. Some ()),
                listdir = (\<lambda>p. Inr [''1-1-0_color.png'', ''1-1-0_meta.pkl'', ''2-3-4_depth.png'']),
                organize_objects = (\<lambda>p. Inr ()) \<rparr>"

definition demo_index :: "(unit, unit) PoseData" where
  "demo_index =
     \<lparr> data_path = ''root'', models_path = ''models'', objects = (),
       pdata =
         [((1, 1, 0),
           [(''key'', KeyVal (1, 1, 0)),
            (''color'', Loader ''root/v2.2/1-1-0_color.png'' (Some 255)),
            (''meta'', MetaVal ())]),
          ((2, 3, 4),
           [(''key'', KeyVal (2, 3, 4)),
            (''depth'', Loader ''root/v2.2/2-3-4_depth.png'' (Some 1000))])],
       nested_data =
         [(1, [(1, [(0, [(''key'', KeyVal (1, 1, 0)),
                         (''color'', Loader ''root/v2.2/1-1-0_color.png'' (Some 255)),
                         (''meta'', MetaVal ())])])]),
          (2, [(3, [(4, [(''key'', KeyVal (2, 3, 4)),
                         (''depth'', Loader ''root/v2.2/2-3-4_depth.png'' (Some 1000))])])])],
       keylist = [(1, 1, 0), (2, 3, 4)] \<rparr>"


text \<open>Concrete tensors for the examples below.\<close>

definition x5d :: "int tensor" where
  "x5d = \<lparr> shape = [1, 1, 2, 2, 1], data = [0, 1, 2, 3] \<rparr>"

definition x4d :: "int tensor" where
  "x4d = \<lparr> shape = [1, 2, 2, 1], data = [0, 1, 2, 3] \<rparr>"

definition x4x4 :: "int tensor" where
  "x4x4 = \<lparr> shape = [1, 4, 4, 1],
            data = [0, 1, 2, 3, 4, 5, 6, 7, 8, 9, 10, 11, 12, 13, 14, 15] \<rparr>"

definition r4d :: "int tensor" where
  "r4d = \<lparr> shape = [1, 3, 2, 1], data = [0, 1, 2, 3, 4, 5] \<rparr>"

definition r4d_tall :: "int tensor" where
  "r4d_tall = \<lparr> shape = [1, 4, 2, 1], data = [0, 1, 2, 3, 4, 5, 6, 7] \<rparr>"

definition q5d :: "int tensor" where
  "q5d = \<lparr> shape = [1, 1, 1, 1, 4], data = [0, 1, 2, 3] \<rparr>"

definition q4d :: "int tensor" where
  "q4d = \<lparr> shape = [1, 1, 1, 4], data = [0, 1, 2, 3] \<rparr>"

definition p3c :: "int tensor" where
  "p3c = \<lparr> shape = [1, 1, 2, 3], data = [1, 2, 3, 4, 5, 6] \<rparr>"


section \<open>Facts about errors and tensors\<close>

lemma bindE_Inl [simp]: "bindE (Inl e) f = Inl e"
  by (simp add: bindE_def)

lemma bindE_Inr [simp]: "bindE (Inr a) f = f a"
  by (simp add: bindE_def)

lemma bindE_eq_Inr: "bindE m f = Inr b \<longleftrightarrow> (\<exists>a. m = Inr a \<and> f a = Inr b)"
  by (cases m) auto


lemma py_assert_True [simp]: "py_assert True e = Inr ()"
  by (simp add: py_assert_def)

lemma py_assert_False [simp]: "py_assert False e = Inl e"
  by (simp add: py_assert_def)

lemma valid_index_Nil [simp]: "valid_index [] idx = (idx = [])"
  by (simp add: valid_index_def)

lemma valid_index_Cons:
  "valid_index (n # ns) idx = (\<exists>i js. idx = i # js \<and> i < n \<and> valid_index ns js)"
  by (cases idx) (auto simp: valid_index_def)

lemma valid_index_Cons_Cons [simp]:
  "valid_index (n # ns) (i # js) = (i < n \<and> valid_index ns js)"
  by (simp add: valid_index_def)

lemma valid_index_length: "valid_index s idx \<Longrightarrow> length idx = length s"
  by (simp add: valid_index_def list_all2_lengthD)

lemma ravel_less: "valid_index s idx \<Longrightarrow> ravel s idx < prod_list s"
proof (induction s arbitrary: idx)
  case Nil
  then show ?case by simp
next
  case (Cons n ns)
  then obtain i js where idx: "idx = i # js" and i: "i < n" and js: "valid_index ns js"
    by (auto simp: valid_index_Cons)
  have r: "ravel ns js < prod_list ns" using Cons.IH [OF js] .
  have "i * prod_list ns + ravel ns js < i * prod_list ns + prod_list ns"
    using r by simp
  also have "\<dots> = Suc i * prod_list ns" by simp
  also have "\<dots> \<le> n * prod_list ns"
    using i by (intro mult_le_mono1) simp
  finally show ?case by (simp add: idx)
qed

lemma unravel_ravel: "valid_index s idx \<Longrightarrow> unravel s (ravel s idx) = idx"
proof (induction s arbitrary: idx)
  case Nil
  then show ?case by simp
next
  case (Cons n ns)
  then obtain i js where idx: "idx = i # js" and i: "i < n" and js: "valid_index ns js"
    by (auto simp: valid_index_Cons)
  have r: "ravel ns js < prod_list ns" using ravel_less [OF js] .
  show ?case using Cons.IH [OF js] r by (simp add: idx)
qed

lemma valid_unravel: "k < prod_list s \<Longrightarrow> valid_index s (unravel s k)"
proof (induction s arbitrary: k)
  case Nil
  then show ?case by simp
next
  case (Cons n ns)
  have pos: "0 < prod_list ns" using Cons.prems by (cases "prod_list ns = 0") auto
  have "k div prod_list ns < n"
    using Cons.prems pos by (simp add: less_mult_imp_div_less mult.commute)
  moreover have "valid_index ns (unravel ns (k mod prod_list ns))"
    using pos by (intro Cons.IH) simp
  ultimately show ?case by simp
qed

lemma ravel_unravel: "k < prod_list s \<Longrightarrow> ravel s (unravel s k) = k"
proof (induction s arbitrary: k)
  case Nil
  then show ?case by simp
next
  case (Cons n ns)
  have pos: "0 < prod_list ns" using Cons.prems by (cases "prod_list ns = 0") auto
  have "ravel ns (unravel ns (k mod prod_list ns)) = k mod prod_list ns"
    using pos by (intro Cons.IH) simp
  then show ?case by simp
qed

lemma shape_tabulate [simp]: "shape (tabulate s f) = s"
  by (simp add: tabulate_def)

lemma length_data_tabulate [simp]: "length (data (tabulate s f)) = prod_list s"
  by (simp add: tabulate_def)

lemma wf_tabulate [simp]: "wf_tensor (tabulate s f)"
  by (simp add: wf_tensor_def)

lemma data_tabulate_nth: "k < prod_list s \<Longrightarrow> data (tabulate s f) ! k = f (unravel s k)"
  by (simp add: tabulate_def)

lemma elem_tabulate: "valid_index s idx \<Longrightarrow> elem (tabulate s f) idx = f idx"
  by (simp add: elem_def data_tabulate_nth ravel_less unravel_ravel)

lemma upt_0_6: "[0..<6] = [0, 1, 2, 3, 4, 5::nat]"
  by (simp add: upt_rec)

lemma tabulate_cong:
  "(\<And>idx. valid_index s idx \<Longrightarrow> f idx = g idx) \<Longrightarrow> tabulate s f = tabulate s g"
  by (simp add: tabulate_def valid_unravel)

lemma valid_index_4:
  "valid_index [n0, n1, n2, n3] idx =
     (\<exists>a b c d. idx = [a, b, c, d] \<and> a < n0 \<and> b < n1 \<and> c < n2 \<and> d < n3)"
  by (auto simp: valid_index_Cons)

lemma valid_index_6:
  "valid_index [n0, n1, n2, n3, n4, n5] idx =
     (\<exists>a b c d e f. idx = [a, b, c, d, e, f] \<and> a < n0 \<and> b < n1 \<and> c < n2 \<and> d < n3 \<and> e < n4 \<and> f < n5)"
  by (auto simp: valid_index_Cons)

lemma window_offset_less:
  assumes "i < (n - w) div w + 1" "k < w" "w \<le> n"
  shows "i * w + k < (n::nat)"
proof -
  have "i * w + k < i * w + w" using assms(2) by simp
  also have "\<dots> = Suc i * w" by simp
  also have "\<dots> \<le> ((n - w) div w + 1) * w"
    using assms(1) by (intro mult_le_mono1) simp
  also have "\<dots> = (n - w) div w * w + w" by simp
  also have "\<dots> \<le> (n - w) + w" by simp
  also have "\<dots> = n" using assms(3) by simp
  finally show ?thesis .
qed

lemma unfold_4d:
  assumes "shape x = [B, H, W, C]" "wh \<le> H" "0 < st"
  shows "unfold x (- 3) wh st =
           Inr (tabulate [B, (H - wh) div st + 1, W, C, wh]
                  (\<lambda>idx. elem x ((butlast idx)[1 := idx ! 1 * st + last idx])))"
  using assms by (simp add: unfold_def norm_dim_def ndim_def)

lemma unfold_5d:
  assumes "shape x = [B, H', W, C, wh]" "ww \<le> W" "0 < st"
  shows "unfold x (- 3) ww st =
           Inr (tabulate [B, H', (W - ww) div st + 1, C, wh, ww]
                  (\<lambda>idx. elem x ((butlast idx)[2 := idx ! 2 * st + last idx])))"
  using assms by (simp add: unfold_def norm_dim_def ndim_def)

lemma permute_6d_windows:
  assumes "shape x = [n0, n1, n2, n3, n4, n5]"
  shows "permute x [0, - 5, - 4, - 2, - 1, - 3] =
           Inr (tabulate [n0, n1, n2, n4, n5, n3]
                  (\<lambda>idx. elem x [idx ! 0, idx ! 1, idx ! 2, idx ! 5, idx ! 3, idx ! 4]))"
  using assms by (simp add: permute_def norm_dim_def ndim_def upt_0_6 eval_nat_numeral)

lemma permute_6d_merge:
  assumes "shape x = [n0, n1, n2, n3, n4, n5]"
  shows "permute x [0, - 5, - 3, - 4, - 2, - 1] =
           Inr (tabulate [n0, n1, n3, n2, n4, n5]
                  (\<lambda>idx. elem x [idx ! 0, idx ! 1, idx ! 3, idx ! 2, idx ! 4, idx ! 5]))"
  using assms by (simp add: permute_def norm_dim_def ndim_def upt_0_6 eval_nat_numeral)

lemma extract_windows_4d:
  assumes sh: "shape x = [B, H, W, C]" and wh: "0 < wh" "wh \<le> H" and ww: "0 < ww" "ww \<le> W"
  shows "extract_windows x wh ww None None =
           Inr \<lparr> shape = [B, (H - wh) div wh + 1, (W - ww) div ww + 1, wh * ww, C],
                 data = data (tabulate [B, (H - wh) div wh + 1, (W - ww) div ww + 1, wh, ww, C]
                   (\<lambda>idx. elem x [idx ! 0, idx ! 1 * wh + idx ! 3, idx ! 2 * ww + idx ! 4, idx ! 5])) \<rparr>"
proof -
  define h where "h = (H - wh) div wh + 1"
  define w where "w = (W - ww) div ww + 1"
  define U1 where "U1 = tabulate [B, h, W, C, wh]
               (\<lambda>idx. elem x ((butlast idx)[1 := idx ! 1 * wh + last idx]))"
  define U2 where "U2 = tabulate [B, h, w, C, wh, ww]
               (\<lambda>idx. elem U1 ((butlast idx)[2 := idx ! 2 * ww + last idx]))"
  define P where "P = tabulate [B, h, w, wh, ww, C]
               (\<lambda>idx. elem U2 [idx ! 0, idx ! 1, idx ! 2, idx ! 5, idx ! 3, idx ! 4])"
  define G where "G = tabulate [B, h, w, wh, ww, C]
               (\<lambda>idx. elem x [idx ! 0, idx ! 1 * wh + idx ! 3, idx ! 2 * ww + idx ! 4, idx ! 5])"
  have u1: "unfold x (- 3) wh wh = Inr U1"
    unfolding U1_def h_def using unfold_4d [OF sh wh(2) wh(1)] .
  have shU1: "shape U1 = [B, h, W, C, wh]" by (simp add: U1_def)
  have u2: "unfold U1 (- 3) ww ww = Inr U2"
    unfolding U2_def w_def using unfold_5d [OF shU1 ww(2) ww(1)] .
  have shU2: "shape U2 = [B, h, w, C, wh, ww]" by (simp add: U2_def)
  have p: "permute U2 [0, - 5, - 4, - 2, - 1, - 3] = Inr P"
    unfolding P_def using permute_6d_windows [OF shU2] .
  have shP: "shape P = [B, h, w, wh, ww, C]" by (simp add: P_def)
  have pg: "P = G"
    unfolding P_def G_def
  proof (rule tabulate_cong)
    fix idx
    assume "valid_index [B, h, w, wh, ww, C] idx"
    then obtain b i j k l c where idx: "idx = [b, i, j, k, l, c]"
      and b: "b < B" and i: "i < h" and j: "j < w" and k: "k < wh" and l: "l < ww" and c: "c < C"
      unfolding valid_index_6 by blast
    have jl: "j * ww + l < W" using window_offset_less [OF j [unfolded w_def] l ww(2)] .
    have "elem U2 [b, i, j, c, k, l] = elem U1 [b, i, j * ww + l, c, k]"
      unfolding U2_def using b i j k l c by (subst elem_tabulate) simp_all
    also have "\<dots> = elem x [b, i * wh + k, j * ww + l, c]"
      unfolding U1_def using b i jl k c by (subst elem_tabulate) simp_all
    finally show "elem U2 [idx ! 0, idx ! 1, idx ! 2, idx ! 5, idx ! 3, idx ! 4] =
                  elem x [idx ! 0, idx ! 1 * wh + idx ! 3, idx ! 2 * ww + idx ! 4, idx ! 5]"
      by (simp add: idx)
  qed
  have r: "reshape P [B, h, w, wh * ww, C] =
             Inr \<lparr> shape = [B, h, w, wh * ww, C], data = data P \<rparr>"
    by (simp add: reshape_def numel_def shP mult.assoc)
  have up3: "unpack3 (shape x) = Inr ([B], H, W, C)"
    by (simp add: unpack3_def sh)
  have up: "unpack5 (shape P) = Inr ([B], h, w, wh, ww, C)"
    by (simp add: unpack5_def shP)
  have "extract_windows x wh ww None None =
          Inr \<lparr> shape = [B, h, w, wh * ww, C], data = data P \<rparr>"
    by (simp add: extract_windows_def up3 u1 u2 p up r)
  then show ?thesis unfolding pg G_def h_def w_def .
qed

section \<open>The geodesic pose loss\<close>

lemma upt_3: "[0..<3] = [0, 1, 2]"
  by (simp add: upt_rec)

lemma arccos_clamp_pos: "0 < arccos (9999 / 10000)"
proof -
  have "arccos 1 < arccos (9999 / 10000 :: real)"
    by (subst arccos_less_mono) simp_all
  then show ?thesis by simp
qed

lemma map2_sub_self: "map2 (-) xs xs = replicate (length xs) (0::real)"
  by (induction xs) simp_all

lemma sum_squares_zeros: "sum_list (map (\<lambda>v. v\<^sup>2) (replicate n (0::real))) = 0"
  by (induction n) simp_all

lemma norm_all_sub_self: "norm_all (mat_sub a a) = 0"
proof -
  have "map2 (map2 (-)) a a = map (\<lambda>row. replicate (length row) (0::real)) a"
    by (induction a) (simp_all add: map2_sub_self)
  moreover have "sum_list (map (\<lambda>row. sum_list (map (\<lambda>v. v\<^sup>2) row))
                    (map (\<lambda>row. replicate (length row) (0::real)) a)) = 0"
    by (induction a) (simp_all add: sum_list_replicate)
  ultimately show ?thesis by (simp only: norm_all_def mat_sub_def real_sqrt_zero)
qed

lemma translation_loss_self: "translation_loss x x = 0"
  by (simp add: translation_loss_def norm_all_sub_self)

lemma clamp_bounds: "- 0.9999 \<le> clamp c (- 0.9999) 0.9999 \<and> clamp c (- 0.9999) 0.9999 \<le> 0.9999"
  by (simp add: clamp_def)

lemma arccos_clamp_ge: "arccos 0.9999 \<le> arccos (clamp c (- 0.9999) 0.9999)"
proof -
  have b: "\<bar>clamp c (- 0.9999) 0.9999\<bar> \<le> 1" using clamp_bounds [of c] by (simp add: abs_le_iff)
  have "\<bar>0.9999 :: real\<bar> \<le> 1" by simp
  then show ?thesis
    using b clamp_bounds [of c] by (subst arccos_le_mono) simp_all
qed

lemma mean_ge:
  assumes "xs \<noteq> []" "\<And>x. x \<in> set xs \<Longrightarrow> c \<le> x"
  shows "\<exists>m. mean xs = Some m \<and> c \<le> m"
proof -
  have "\<forall>x \<in> set xs. c \<le> x" using assms(2) by blast
  then have "real (length xs) * c \<le> sum_list xs"
  proof (induction xs)
    case Nil
    then show ?case by simp
  next
    case (Cons a xs)
    then have "c \<le> a" "real (length xs) * c \<le> sum_list xs" by simp_all
    then have "c + real (length xs) * c \<le> a + sum_list xs" by (rule add_mono)
    then show ?case by (simp add: distrib_right)
  qed
  moreover have "0 < real (length xs)" using assms(1) by simp
  ultimately have "c \<le> sum_list xs / real (length xs)"
    by (simp add: pos_le_divide_eq mult.commute)
  then show ?thesis using assms(1) by (simp add: mean_def)
qed

lemma mean_const:
  assumes "xs \<noteq> []" "\<And>x. x \<in> set xs \<Longrightarrow> x = c"
  shows "mean xs = Some c"
proof -
  have "\<forall>x \<in> set xs. x = c" using assms(2) by blast
  then have "sum_list xs = real (length xs) * c"
    by (induction xs) (simp_all add: distrib_right)
  moreover have "real (length xs) \<noteq> 0" using assms(1) by simp
  ultimately show ?thesis using assms(1) by (simp add: mean_def)
qed

lemma rotation_loss_ge:
  assumes "x \<noteq> []"
  shows "\<exists>r. rotation_loss x x = Some r \<and> arccos 0.9999 \<le> r"
  unfolding rotation_loss_def Let_def
proof (rule mean_ge)
  show "map arccos (map (\<lambda>c. clamp c (- 0.9999) 0.9999)
          (map (\<lambda>t. (t - 1) / 2) (map diagonal_sum (bmm (slice_R x) (map mat_transpose (slice_R x)))))) \<noteq> []"
    using assms by (simp add: bmm_def slice_R_def)
next
  fix v
  assume "v \<in> set (map arccos (map (\<lambda>c. clamp c (- 0.9999) 0.9999)
          (map (\<lambda>t. (t - 1) / 2) (map diagonal_sum (bmm (slice_R x) (map mat_transpose (slice_R x)))))))"
  then obtain c where "v = arccos (clamp c (- 0.9999) 0.9999)" by auto
  then show "arccos 0.9999 \<le> v" using arccos_clamp_ge [of c] by simp
qed

lemma diagonal_sum_eye3: "diagonal_sum eye3 = 3"
  by (simp add: diagonal_sum_def eye3_def upt_3)

lemma rotation_loss_orthogonal:
  assumes "x \<noteq> []"
    and orth: "\<And>m. m \<in> set (bmm (slice_R x) (map mat_transpose (slice_R x))) \<Longrightarrow> m = eye3"
  shows "rotation_loss x x = Some (arccos 0.9999)"
  unfolding rotation_loss_def Let_def
proof (rule mean_const)
  show "map arccos (map (\<lambda>c. clamp c (- 0.9999) 0.9999)
          (map (\<lambda>t. (t - 1) / 2) (map diagonal_sum (bmm (slice_R x) (map mat_transpose (slice_R x)))))) \<noteq> []"
    using assms(1) by (simp add: bmm_def slice_R_def)
next
  fix v
  assume "v \<in> set (map arccos (map (\<lambda>c. clamp c (- 0.9999) 0.9999)
          (map (\<lambda>t. (t - 1) / 2) (map diagonal_sum (bmm (slice_R x) (map mat_transpose (slice_R x)))))))"
  then obtain m where m: "m \<in> set (bmm (slice_R x) (map mat_transpose (slice_R x)))"
    and v: "v = arccos (clamp ((diagonal_sum m - 1) / 2) (- 0.9999) 0.9999)"
    by auto
  have "m = eye3" using m by (rule orth)
  then show "v = arccos 0.9999"
    by (simp add: v diagonal_sum_eye3 clamp_def)
qed

lemma sqrt_squares: "sqrt 9 = 3" "sqrt 16 = 4" "sqrt 25 = 5"
proof -
  have "sqrt 9 = sqrt (3\<^sup>2)" "sqrt 16 = sqrt (4\<^sup>2)" "sqrt 25 = sqrt (5\<^sup>2)" by simp_all
  then show "sqrt 9 = 3" "sqrt 16 = 4" "sqrt 25 = 5" by (simp_all only: real_sqrt_abs)
qed

text \<open>
  C1, as stated: for identical predicted and target transforms the geodesic rotation loss
  is 0 and the translation loss is 0.  The rotation part fails for the identity
  transform: its cosine 1 is clamped to 0.9999 and the rotation loss is
  \<open>arccos 0.9999\<close>, which is not 0.
\<close>

theorem identity_rotation_loss_counterexample:
  "geodesic_forward None [identity_transform] [identity_transform]
     = Inr [Some (arccos (9999 / 10000)), Some 0]
   \<and> arccos (9999 / 10000) \<noteq> (0::real)"
proof -
  have r: "rotation_loss [identity_transform] [identity_transform] = Some (arccos (9999 / 10000))"
    by (simp add: rotation_loss_def slice_R_def identity_transform_def bmm_def matmul_def
        mat_transpose_def diagonal_sum_def clamp_def mean_def upt_3 Let_def)
  have t: "translation_loss [identity_transform] [identity_transform] = 0"
    by (rule translation_loss_self)
  have c: "four_columns [identity_transform]"
    by (simp add: four_columns_def identity_transform_def)
  show ?thesis
    using arccos_clamp_pos by (simp add: geodesic_forward_def r t c)
qed

text \<open>
  C1, amended: for every non-empty batch of transforms (at least 3 by 4 each) where the
  predicted transform equals the target transform, the translation loss is 0, and the rotation loss is at
  least \<open>arccos 0.9999\<close>, so it is positive; it is exactly \<open>arccos 0.9999\<close> when every
  rotation block times its transpose is the identity.  These are the first two terms that
  \<open>forward\<close> returns.
\<close>

theorem identical_transforms_losses:
  assumes "x \<noteq> []" and tr: "transforms x"
  shows "translation_loss x x = 0
       \<and> (\<exists>r. rotation_loss x x = Some r \<and> arccos 0.9999 \<le> r \<and> 0 < r
              \<and> ((\<forall>m \<in> set (bmm (slice_R x) (map mat_transpose (slice_R x))). m = eye3)
                    \<longrightarrow> r = arccos 0.9999))
       \<and> (\<exists>rest. geodesic_forward SO_weight x x = Inr (rotation_loss x x # Some 0 # rest))"
proof -
  have t: "translation_loss x x = 0" by (rule translation_loss_self)
  obtain r where r: "rotation_loss x x = Some r" and ge: "arccos 0.9999 \<le> r"
    using rotation_loss_ge [OF assms(1)] by blast
  have pos: "0 < r" using ge arccos_clamp_pos by simp
  have orth: "r = arccos 0.9999"
    if "\<forall>m \<in> set (bmm (slice_R x) (map mat_transpose (slice_R x))). m = eye3"
    using rotation_loss_orthogonal [OF assms(1)] that r by auto
  have f: "\<exists>rest. geodesic_forward SO_weight x x = Inr (rotation_loss x x # Some 0 # rest)"
    using tr by (simp add: geodesic_forward_def transforms_def t)
  show ?thesis using t r ge pos orth f by blast
qed

theorem identical_transforms_losses_witness:
  "[identity_transform] \<noteq> [] \<and> transforms [identity_transform]
   \<and> bmm (slice_R [identity_transform]) (map mat_transpose (slice_R [identity_transform])) = [eye3]
   \<and> translation_loss [identity_transform] [identity_transform] = 0
   \<and> rotation_loss [identity_transform] [identity_transform] = Some (arccos 0.9999)"
proof -
  have ne: "[identity_transform] \<noteq> []" by simp
  have b: "bmm (slice_R [identity_transform]) (map mat_transpose (slice_R [identity_transform])) = [eye3]"
    by (simp add: slice_R_def identity_transform_def bmm_def matmul_def mat_transpose_def
        eye3_def upt_3)
  have tr: "transforms [identity_transform]"
    by (simp add: transforms_def four_columns_def identity_transform_def)
  show ?thesis
    using identical_transforms_losses [OF ne tr, of None] ne tr b by auto
qed

text \<open>
  C2: the claim is that the translation term is the mean over the batch of the
  per-sample Euclidean norms.  The code takes \<open>torch.norm\<close> over the whole stacked
  difference and then the mean of that single number.  For two samples with translation
  differences (3, 0, 0) and (4, 0, 0) the code returns 5, the square root of 9 + 16; the
  mean of the per-sample norms is 7/2.
\<close>

theorem translation_loss_whole_batch_norm:
  "translation_loss [shifted 3, shifted 4] [identity_transform, identity_transform] = 5
   \<and> translation_loss_spec [shifted 3, shifted 4] [identity_transform, identity_transform]
       = Some (7 / 2)
   \<and> (\<exists>r. geodesic_forward None [shifted 3, shifted 4] [identity_transform, identity_transform]
            = Inr [r, Some 5])"
proof -
  have c: "translation_loss [shifted 3, shifted 4] [identity_transform, identity_transform] = 5"
    by (simp add: translation_loss_def slice_T_def shifted_def identity_transform_def
        mat_sub_def norm_all_def sqrt_squares Let_def)
  have s: "translation_loss_spec [shifted 3, shifted 4] [identity_transform, identity_transform]
             = Some (7 / 2)"
    by (simp add: translation_loss_spec_def slice_T_def shifted_def identity_transform_def
        mean_def sqrt_squares)
  have f: "\<exists>r. geodesic_forward None [shifted 3, shifted 4] [identity_transform, identity_transform]
            = Inr [r, Some 5]"
  proof -
    have "four_columns [shifted 3, shifted 4]" "four_columns [identity_transform, identity_transform]"
      by (simp_all add: four_columns_def shifted_def identity_transform_def)
    then show ?thesis by (simp add: geodesic_forward_def c)
  qed
  show ?thesis using c s f by blast
qed

section \<open>Window extraction and merge\<close>

lemma tensor_eqI: "shape (t::'a tensor) = s \<Longrightarrow> data t = d \<Longrightarrow> \<lparr> shape = s, data = d \<rparr> = t"
  by auto

lemma merge_index_eq:
  fixes b i k j l c :: nat
  shows "ravel [B, h * wh, w * ww, C] [b, i * wh + k, j * ww + l, c] =
         ravel [B, h, wh, w, ww, C] [b, i, k, j, l, c]"
  by (simp add: algebra_simps)

lemma unfold_ndim: "unfold t d sz step = Inr u \<Longrightarrow> ndim u = ndim t + 1"
  by (auto simp: unfold_def bindE_eq_Inr Let_def ndim_def split: if_splits)

lemma permute_ndim: "permute t dims = Inr u \<Longrightarrow> ndim t = length dims"
  by (auto simp: permute_def split: if_splits)

text \<open>
  C3: the claim is that for every feature map of shape [*, H, W, C] with H and W
  divisible by the window sizes, extraction followed by the merge reconstructs the
  feature map.  The docstring of \<open>_extract_windows\<close> gives the input shape as
  [B*, H, W, C], the code unpacks \<open>*B, H, W, C\<close> and hands \<open>*B\<close> to its reshapes, and
  \<open>unfold\<close> counts the dimensions from the end; but \<open>permute(0, -5, -4, -2, -1, -3)\<close>
  names six dimensions.  For a feature map with two leading dimensions the unfolded
  tensor has seven, and \<open>permute\<close> raises.  Here the shape is [1, 1, 2, 2, 1] and the
  window is 2 by 2: \<open>_extract_windows\<close> raises, and the round trip does not return the
  feature map.
\<close>

theorem extract_windows_two_leading_dims_raises:
  "extract_windows x5d 2 2 None None = Inl RuntimeError
   \<and> extract_then_merge x5d 2 2 \<noteq> Inr x5d"
  by code_simp

text \<open>
  No other number of leading dimensions is accepted either: \<open>_extract_windows\<close> returns
  only for a feature map of four dimensions.
\<close>

lemma extract_windows_rank:
  assumes "extract_windows x wh ww sh sw = Inr y"
  shows "length (shape x) = 4"
proof -
  from assms obtain u1 u2 p s1 s2
    where 1: "unfold x (- 3) wh s1 = Inr u1"
      and 2: "unfold u1 (- 3) ww s2 = Inr u2"
      and 3: "permute u2 [0, - 5, - 4, - 2, - 1, - 3] = Inr p"
    by (auto simp: extract_windows_def bindE_eq_Inr Let_def)
  have "ndim u2 = ndim x + 2" using unfold_ndim [OF 1] unfold_ndim [OF 2] by simp
  moreover have "ndim u2 = 6" using permute_ndim [OF 3] by simp
  ultimately show ?thesis by (simp add: ndim_def)
qed

text \<open>
  With exactly one leading dimension the code does what is claimed: for every feature
  map of shape [B, H, W, C] with H a positive multiple of the window height and W a
  positive multiple of the window width, \<open>_extract_windows\<close> with stride equal to the
  window size returns the windows in shape [B, H / wh, W / ww, wh * ww, C], and the merge
  of lines 140 to 142 of \<open>SwinResidualCrossAttention.forward\<close> applied to them returns the
  original feature map exactly.
\<close>

theorem extract_then_merge_roundtrip:
  assumes sh: "shape x = [B, H, W, C]" and wf: "wf_tensor x"
    and wh: "0 < wh" "wh dvd H" "0 < H" and ww: "0 < ww" "ww dvd W" "0 < W"
  shows "extract_windows x wh ww (Some wh) (Some ww) = extract_windows x wh ww None None
       \<and> (\<exists>windows. extract_windows x wh ww None None = Inr windows
             \<and> shape windows = [B, H div wh, W div ww, wh * ww, C])
       \<and> extract_then_merge x wh ww = Inr x"
proof -
  obtain h where H: "H = h * wh" using wh(2) by (auto simp: dvd_def mult.commute)
  obtain w where W: "W = w * ww" using ww(2) by (auto simp: dvd_def mult.commute)
  have hpos: "0 < h" using wh(3) H by (cases h) auto
  have wpos: "0 < w" using ww(3) W by (cases w) auto
  have whH: "wh \<le> H" using hpos H by (cases h) auto
  have wwW: "ww \<le> W" using wpos W by (cases w) auto
  have h': "(H - wh) div wh + 1 = h" using hpos wh(1) H by (cases h) auto
  have w': "(W - ww) div ww + 1 = w" using wpos ww(1) W by (cases w) auto
  define G where "G = tabulate [B, h, w, wh, ww, C]
      (\<lambda>idx. elem x [idx ! 0, idx ! 1 * wh + idx ! 3, idx ! 2 * ww + idx ! 4, idx ! 5])"
  define Wn where "Wn = \<lparr> shape = [B, h, w, wh * ww, C], data = data G \<rparr>"
  define M where "M = tabulate [B, h, wh, w, ww, C]
      (\<lambda>idx. elem G [idx ! 0, idx ! 1, idx ! 3, idx ! 2, idx ! 4, idx ! 5])"
  have shG: "shape G = [B, h, w, wh, ww, C]" by (simp add: G_def)
  have ex: "extract_windows x wh ww None None = Inr Wn"
    using extract_windows_4d [OF sh wh(1) whH ww(1) wwW] unfolding h' w' Wn_def G_def .
  have up: "unpack4 (shape Wn) = Inr ([B], h, w, wh * ww, C)"
    by (simp add: unpack4_def Wn_def)
  have r1: "reshape Wn [B, h, w, wh, ww, C] = Inr G"
    by (simp add: reshape_def numel_def Wn_def mult.assoc tensor_eqI shG)
  have p: "permute G [0, - 5, - 3, - 4, - 2, - 1] = Inr M"
    unfolding M_def using permute_6d_merge [OF shG] .
  have len: "prod_list [B, h, wh, w, ww, C] = length (data x)"
    using wf by (simp add: wf_tensor_def sh H W algebra_simps)
  have dat: "data M = data x"
  proof (rule nth_equalityI)
    show "length (data M) = length (data x)"
      using len by (simp add: M_def)
  next
    fix n
    assume "n < length (data M)"
    then have n: "n < prod_list [B, h, wh, w, ww, C]" by (simp add: M_def)
    define idx where "idx = unravel [B, h, wh, w, ww, C] n"
    have v: "valid_index [B, h, wh, w, ww, C] idx"
      unfolding idx_def using n by (rule valid_unravel)
    have rn: "ravel [B, h, wh, w, ww, C] idx = n"
      unfolding idx_def using n by (rule ravel_unravel)
    from v obtain b i k j l c where idx: "idx = [b, i, k, j, l, c]"
      and b: "b < B" and i: "i < h" and k: "k < wh" and j: "j < w" and l: "l < ww" and c: "c < C"
      unfolding valid_index_6 by blast
    have "data M ! n = elem G [idx ! 0, idx ! 1, idx ! 3, idx ! 2, idx ! 4, idx ! 5]"
      unfolding M_def idx_def using n by (rule data_tabulate_nth)
    also have "\<dots> = elem G [b, i, j, k, l, c]"
      by (simp add: idx)
    also have "\<dots> = elem x [b, i * wh + k, j * ww + l, c]"
      unfolding G_def using b i j k l c by (subst elem_tabulate) simp_all
    also have "\<dots> = data x ! ravel [B, h * wh, w * ww, C] [b, i * wh + k, j * ww + l, c]"
      by (simp add: elem_def sh H W del: ravel.simps)
    also have "\<dots> = data x ! n"
      unfolding merge_index_eq using rn by (simp only: idx)
    finally show "data M ! n = data x ! n" .
  qed
  have r2: "reshape M [B, h * wh, w * ww, C] = Inr x"
    using dat sh by (simp add: reshape_def numel_def M_def H W algebra_simps tensor_eqI)
  have strides: "extract_windows x wh ww (Some wh) (Some ww) = extract_windows x wh ww None None"
    by (simp add: extract_windows_def)
  have shWn: "shape Wn = [B, H div wh, W div ww, wh * ww, C]"
    using wh(1) ww(1) by (simp add: Wn_def H W)
  have round: "extract_then_merge x wh ww = Inr x"
    by (simp add: extract_then_merge_def ex up merge_windows_def r1 p r2)
  show ?thesis
    using strides ex shWn round by blast
qed


text \<open>
  A 4 by 4 map with 2 by 2 windows: the windows are not in the order of the map, and the
  merge restores it.
\<close>

lemma x4x4_windows:
  "extract_windows x4x4 2 2 None None
     = Inr \<lparr> shape = [1, 2, 2, 4, 1],
             data = [0, 1, 4, 5, 2, 3, 6, 7, 8, 9, 12, 13, 10, 11, 14, 15] \<rparr>"
  by code_simp

theorem extract_then_merge_roundtrip_witness:
  "shape x4x4 = [1, 4, 4, 1] \<and> wf_tensor x4x4 \<and> (2::nat) dvd 4
   \<and> extract_then_merge x4x4 2 2 = Inr x4x4"
  using extract_then_merge_roundtrip [of x4x4 1 4 4 1 2 2] by (simp add: x4x4_def wf_tensor_def)

section \<open>Patch expanding\<close>

lemma unpack3_append: "unpack3 (B @ [H, W, C]) = Inr (B, H, W, C)"
  by (simp add: unpack3_def nth_append)

lemma permute_6d_expand:
  assumes "shape x = [n0, n1, n2, n3, n4, n5]"
  shows "permute x [0, 1, 3, 2, 4, 5] =
           Inr (tabulate [n0, n1, n3, n2, n4, n5]
                  (\<lambda>idx. elem x [idx ! 0, idx ! 1, idx ! 3, idx ! 2, idx ! 4, idx ! 5]))"
  using assms by (simp add: permute_def norm_dim_def ndim_def upt_0_6 eval_nat_numeral)

text \<open>
  C4: the claim is that for every input of shape [*, H, W, C] with C a multiple of 4,
  \<open>_patch_expanding_pad\<close> returns a tensor of shape [*, 2H, 2W, C/4].  The code unpacks
  \<open>*B, H_HALF, W_HALF, C_QUAD\<close>, hands \<open>*B\<close> to both views and calls \<open>_pad_expansion\<close>,
  which takes any number of leading dimensions; but \<open>permute(0, 1, 3, 2, 4, 5)\<close> names
  six dimensions.  For an input with two leading dimensions the view has seven, and
  \<open>permute\<close> raises instead of returning a tensor.  Here the shape is [1, 1, 1, 1, 4].
\<close>

theorem patch_expanding_pad_two_leading_dims_raises:
  "patch_expanding_pad q5d = Inl RuntimeError"
  by code_simp

text \<open>
  No other number of leading dimensions is accepted either: \<open>_patch_expanding_pad\<close>
  returns only for an input of four dimensions.
\<close>

lemma patch_expanding_pad_rank:
  assumes "patch_expanding_pad x = Inr y"
  shows "length (shape x) = 4"
proof -
  from assms obtain B H W C x1 v p
    where u: "unpack3 (shape x) = Inr (B, H, W, C)"
      and 1: "pad_expansion x False = Inr x1"
      and 2: "view x1 (B @ [H, W, 2, 2, C div 4]) = Inr v"
      and 3: "permute v [0, 1, 3, 2, 4, 5] = Inr p"
    by (auto simp: patch_expanding_pad_def bindE_eq_Inr Let_def)
  have B: "length B = length (shape x) - 3" "3 \<le> length (shape x)"
    using u by (auto simp: unpack3_def Let_def split: if_splits)
  have "shape v = B @ [H, W, 2, 2, C div 4]"
    using 2 by (auto simp: view_def reshape_def split: if_splits)
  then have "ndim v = length B + 5" by (simp add: ndim_def)
  moreover have "ndim v = 6" using permute_ndim [OF 3] by simp
  ultimately show ?thesis using B by simp
qed

text \<open>
  With exactly one leading dimension the code does what is claimed: for every input of
  shape [B, H, W, C] with C a multiple of 4, \<open>_patch_expanding_pad\<close> returns a tensor of
  shape [B, 2H, 2W, C/4] with as many elements as the input.
\<close>

theorem patch_expanding_pad_shape:
  assumes sh: "shape x = [B, H, W, C_QUAD]" and c4: "4 dvd C_QUAD"
  shows "\<exists>y. patch_expanding_pad x = Inr y \<and> shape y = [B, 2 * H, 2 * W, C_QUAD div 4]
             \<and> numel y = numel x \<and> wf_tensor y"
proof -
  obtain C where C: "C_QUAD = 4 * C" using c4 by (auto simp: dvd_def)
  define V where "V = \<lparr> shape = [B, H, W, 2, 2, C], data = data x \<rparr>"
  define P where "P = tabulate [B, H, 2, W, 2, C]
      (\<lambda>idx. elem V [idx ! 0, idx ! 1, idx ! 3, idx ! 2, idx ! 4, idx ! 5])"
  have up: "unpack3 (shape x) = Inr ([B], H, W, C_QUAD)"
    by (simp add: unpack3_def sh)
  have pe: "pad_expansion x False = Inr x"
    by (simp add: pad_expansion_def up C)
  have v: "view x [B, H, W, 2, 2, C] = Inr V"
    by (simp add: view_def reshape_def numel_def sh C V_def)
  have p: "permute V [0, 1, 3, 2, 4, 5] = Inr P"
    unfolding P_def by (rule permute_6d_expand) (simp add: V_def)
  have v2: "view P [B, H * 2, W * 2, C] = Inr \<lparr> shape = [B, H * 2, W * 2, C], data = data P \<rparr>"
    by (simp add: view_def reshape_def numel_def P_def)
  have "patch_expanding_pad x = Inr \<lparr> shape = [B, H * 2, W * 2, C], data = data P \<rparr>"
    by (simp add: patch_expanding_pad_def up pe C v p v2)
  then show ?thesis
    by (simp add: C numel_def sh wf_tensor_def P_def mult.commute)
qed

theorem patch_expanding_pad_shape_witness:
  "(4::nat) dvd 4
   \<and> (\<exists>y. patch_expanding_pad q4d = Inr y \<and> shape y = [1, 2, 2, 1]
         \<and> numel y = numel q4d \<and> wf_tensor y)"
  using patch_expanding_pad_shape [of q4d 1 1 1 4] by (simp add: q4d_def)

section \<open>Cross-attention fusion\<close>

lemma window_count: "0 < w \<Longrightarrow> w \<le> n \<Longrightarrow> (n - w) div w + 1 = n div (w::nat)"
  by (simp add: le_div_geq)

lemma merge_windows_not_mismatch:
  "merge_windows a [B] H W wh ww C \<noteq> Inl (ShapeMismatch s1 s2)"
proof (cases "prod_list [B, H, W, wh, ww, C] = numel a")
  case False
  then show ?thesis by (simp add: merge_windows_def reshape_def)
next
  case True
  define A where "A = \<lparr> shape = [B, H, W, wh, ww, C], data = data a \<rparr>"
  have r: "reshape a [B, H, W, wh, ww, C] = Inr A"
    using True by (simp add: reshape_def A_def)
  have p: "\<exists>M. permute A [0, - 5, - 3, - 4, - 2, - 1] = Inr M"
    using permute_6d_merge [of A] by (simp add: A_def)
  then obtain M where M: "permute A [0, - 5, - 3, - 4, - 2, - 1] = Inr M" ..
  show ?thesis
    by (simp add: merge_windows_def r M) (simp add: reshape_def)
qed

text \<open>
  C5, as stated: whenever the spatial sizes of the two feature maps differ, the
  shape-mismatch assertion fails.  This fails for heights 2 and 3 with a 2 by 2 window:
  the truncating unfold gives both one row of windows, the windowed shapes are equal,
  the assertion passes and \<open>forward\<close> returns (the attention here returns its query).
\<close>

theorem forward_truncated_counterexample:
  "forward (\<lambda>Q K V. Some Q) 2 2 x4d r4d = Inr x4d"
  by code_simp

text \<open>
  C5, amended: for two feature maps of shapes [B1, H1, W1, C1] and [B2, H2, W2, C2], each
  at least one window high and wide, \<open>SwinResidualCrossAttention.forward\<close> fails with
  the shape-mismatch assertion exactly when the batch sizes, the channel counts, the
  numbers of window rows (H div wh) or the numbers of window columns (W div ww) differ.
\<close>

theorem forward_shape_mismatch_iff:
  assumes shx: "shape x = [B1, H1, W1, C1]" and shr: "shape residual = [B2, H2, W2, C2]"
    and wh: "0 < wh" "wh \<le> H1" "wh \<le> H2" and ww: "0 < ww" "ww \<le> W1" "ww \<le> W2"
  shows "(\<exists>s1 s2. forward cross_attention wh ww x residual = Inl (ShapeMismatch s1 s2)) \<longleftrightarrow>
         (B1, H1 div wh, W1 div ww, C1) \<noteq> (B2, H2 div wh, W2 div ww, C2)"
proof -
  have "\<exists>d. extract_windows x wh ww None None =
          Inr \<lparr> shape = [B1, H1 div wh, W1 div ww, wh * ww, C1], data = d \<rparr>"
    using extract_windows_4d [OF shx wh(1) wh(2) ww(1) ww(2)]
    unfolding window_count [OF wh(1) wh(2)] window_count [OF ww(1) ww(2)] by blast
  then obtain xc where xc: "extract_windows x wh ww None None = Inr xc"
      and shxc: "shape xc = [B1, H1 div wh, W1 div ww, wh * ww, C1]"
    by force
  have "\<exists>d. extract_windows residual wh ww None None =
          Inr \<lparr> shape = [B2, H2 div wh, W2 div ww, wh * ww, C2], data = d \<rparr>"
    using extract_windows_4d [OF shr wh(1) wh(3) ww(1) ww(3)]
    unfolding window_count [OF wh(1) wh(3)] window_count [OF ww(1) ww(3)] by blast
  then obtain rc where rc: "extract_windows residual wh ww None None = Inr rc"
      and shrc: "shape rc = [B2, H2 div wh, W2 div ww, wh * ww, C2]"
    by force
  show ?thesis
  proof (cases "shape xc = shape rc")
    case False
    then have "forward cross_attention wh ww x residual = Inl (ShapeMismatch (shape xc) (shape rc))"
      by (simp add: forward_def xc rc)
    moreover have "(B1, H1 div wh, W1 div ww, C1) \<noteq> (B2, H2 div wh, W2 div ww, C2)"
      using False by (auto simp: shxc shrc)
    ultimately show ?thesis by blast
  next
    case True
    have up: "unpack4 (shape rc) = Inr ([B2], H2 div wh, W2 div ww, wh * ww, C2)"
      by (simp add: unpack4_def shrc)
    have "forward cross_attention wh ww x residual \<noteq> Inl (ShapeMismatch s1 s2)" for s1 s2
      by (simp add: forward_def xc rc True up reshape_infer_def bindE_def Let_def
            merge_windows_not_mismatch split: sum.splits option.splits)
    moreover have "(B1, H1 div wh, W1 div ww, C1) = (B2, H2 div wh, W2 div ww, C2)"
      using True by (simp add: shxc shrc)
    ultimately show ?thesis by simp
  qed
qed


theorem forward_shape_mismatch_iff_witness:
  "shape x4d = [1, 2, 2, 1] \<and> shape r4d_tall = [1, 4, 2, 1]
   \<and> (\<exists>s1 s2. forward (\<lambda>Q K V. Some Q) 2 2 x4d r4d_tall = Inl (ShapeMismatch s1 s2))"
  using forward_shape_mismatch_iff [of x4d 1 2 2 1 r4d_tall 1 4 2 1 2 2 "\<lambda>Q K V. Some Q"]
  by (simp add: x4d_def r4d_tall_def)

section \<open>Channel padding\<close>

lemma pad0: "((4 - C mod 4) mod 4 = 0) = ((C::nat) mod 4 = 0)"
  by presburger

lemma pad1: "(C::nat) mod 4 \<noteq> 0 \<Longrightarrow> (4 - C mod 4) mod 4 = 4 - C mod 4"
proof -
  assume "C mod 4 \<noteq> 0"
  then have "4 - C mod 4 < 4" by simp
  then show ?thesis by (rule mod_less)
qed

lemma next_multiple_of_4: "C mod 4 \<noteq> 0 \<Longrightarrow> C + (4 - C mod 4) = 4 * (C div 4 + (1::nat))"
proof -
  define q where "q = C div 4"
  define r where "r = C mod 4"
  have r: "r < 4" by (simp add: r_def)
  have C: "C = 4 * q + r" by (simp add: q_def r_def)
  have "C + (4 - r) = 4 * (q + 1)" using r C by simp
  then show ?thesis by (simp only: r_def q_def)
qed


lemma shape_pad_last:
  "shape x = B @ [H, W, C] \<Longrightarrow> shape (pad_last x p v) = B @ [H, W, C + p]"
  by (simp add: pad_last_def Let_def butlast_append)

lemma elem_pad_last:
  assumes "shape x = B @ [H, W, C]" "valid_index (B @ [H, W, C + p]) idx"
  shows "elem (pad_last x p v) idx = (if last idx < C then elem x idx else v)"
proof -
  have "pad_last x p v = tabulate (B @ [H, W, C + p]) (\<lambda>idx. if last idx < C then elem x idx else v)"
    by (simp add: pad_last_def Let_def butlast_append assms(1))
  then show ?thesis using assms(2) by (simp only: elem_tabulate)
qed

text \<open>
  C6, as stated: whenever \<open>_pad_expansion\<close> is called with \<open>distributed=True\<close> it fails with
  the not-implemented error.  This fails when the channel count is already a multiple of
  4: the guard \<open>pad_c == 0\<close> returns the input first.  Here the shape is [1, 1, 1, 4].
\<close>

theorem pad_expansion_distributed_counterexample:
  "pad_expansion q4d True = Inr q4d"
  by code_simp

text \<open>
  C6, amended: for an input of shape [*, H, W, C], \<open>_pad_expansion\<close> with
  \<open>distributed=True\<close> fails with the not-implemented error exactly when C is not a
  multiple of 4; when C is a multiple of 4 it returns the input unchanged, whatever
  \<open>distributed\<close> is; with \<open>distributed=False\<close> and C not a multiple of 4 it returns the
  input with the channels padded to the next multiple of 4, the old channels unchanged
  and the new trailing channels zero.
\<close>

theorem pad_expansion_cases:
  assumes sh: "shape x = B @ [H, W, C]"
  shows "(pad_expansion x True = Inl NotImplementedError \<longleftrightarrow> C mod 4 \<noteq> 0)
       \<and> (C mod 4 = 0 \<longrightarrow> pad_expansion x distributed = Inr x)
       \<and> (C mod 4 \<noteq> 0 \<longrightarrow>
            (\<exists>y. pad_expansion x False = Inr y
                \<and> shape y = B @ [H, W, C + (4 - C mod 4)]
                \<and> C + (4 - C mod 4) = 4 * (C div 4 + 1)
                \<and> (\<forall>idx. valid_index (shape y) idx \<longrightarrow>
                      elem y idx = (if last idx < C then elem x idx else 0))))"
proof -
  have up: "unpack3 (shape x) = Inr (B, H, W, C)"
    by (simp add: sh unpack3_append)
  have a: "pad_expansion x True = Inl NotImplementedError \<longleftrightarrow> C mod 4 \<noteq> 0"
    by (simp add: pad_expansion_def up pad0 Let_def)
  have b: "C mod 4 = 0 \<longrightarrow> pad_expansion x distributed = Inr x"
    by (simp add: pad_expansion_def up)
  have c: "\<exists>y. pad_expansion x False = Inr y
                \<and> shape y = B @ [H, W, C + (4 - C mod 4)]
                \<and> C + (4 - C mod 4) = 4 * (C div 4 + 1)
                \<and> (\<forall>idx. valid_index (shape y) idx \<longrightarrow>
                      elem y idx = (if last idx < C then elem x idx else 0))"
    if nz: "C mod 4 \<noteq> 0"
  proof -
    let ?y = "pad_last x (4 - C mod 4) 0"
    have 1: "pad_expansion x False = Inr ?y"
      using nz by (simp add: pad_expansion_def up pad0 pad1 Let_def)
    have 2: "shape ?y = B @ [H, W, C + (4 - C mod 4)]"
      using sh by (rule shape_pad_last)
    have 3: "elem ?y idx = (if last idx < C then elem x idx else 0)"
      if "valid_index (shape ?y) idx" for idx
      using that elem_pad_last [OF sh] by (simp only: 2)
    show ?thesis
      using 1 2 3 next_multiple_of_4 [OF nz] by (intro exI [of _ ?y] conjI allI impI)
  qed
  show ?thesis using a b c by blast
qed


theorem pad_expansion_cases_witness:
  "shape p3c = [1] @ [1, 2, 3]
   \<and> pad_expansion p3c True = Inl NotImplementedError
   \<and> (\<exists>y. pad_expansion p3c False = Inr y \<and> shape y = [1, 1, 2, 4])"
proof -
  have sh: "shape p3c = [1] @ [1, 2, 3]" by (simp add: p3c_def)
  show ?thesis using sh pad_expansion_cases [OF sh, of False] by auto
qed

section \<open>Rounding to the nearest double\<close>













lemma round_double_0 [simp]: "round_double 0 = 0"
  by (simp add: round_double_def)
























section \<open>The stochastic-depth schedule\<close>





















section \<open>The dataset indexer\<close>

lemma map_of_dict_set: "map_of (dict_set d k v) = (map_of d)(k \<mapsto> v)"
  by (induction d) (auto simp: fun_eq_iff)

lemma dict_has_iff: "dict_has d k \<longleftrightarrow> k \<in> set (map fst d)"
  by (simp add: dict_has_def map_of_eq_None_iff)

lemma dict_has_dict_set: "dict_has (dict_set d k v) k' \<longleftrightarrow> k' = k \<or> dict_has d k'"
  by (simp add: dict_has_def map_of_dict_set)

lemma keys_dict_set:
  "map fst (dict_set d k v) = (if k \<in> set (map fst d) then map fst d else map fst d @ [k])"
  by (induction d) (auto simp: rev_image_eqI)

lemma length_dict_set:
  "length (dict_set d k v) = (if dict_has d k then length d else Suc (length d))"
  by (induction d) (auto simp: dict_has_def)

lemma distinct_dict_set: "distinct (map fst d) \<Longrightarrow> distinct (map fst (dict_set d k v))"
  by (simp add: keys_dict_set)

lemma sum_dict_set_new:
  "map_of d k = None \<Longrightarrow> sum_list (map f (dict_set d k v)) = sum_list (map f d) + f (k, v)"
  for f :: "_ \<Rightarrow> nat"
  by (induction d) (auto split: if_splits)

lemma sum_dict_set_old:
  "map_of d k = Some old \<Longrightarrow>
     sum_list (map f (dict_set d k v)) + f (k, old) = sum_list (map f d) + f (k, v)"
  for f :: "_ \<Rightarrow> nat"
  by (induction d) (auto split: if_splits)

lemma nested_get_nested_set:
  "nested_get (nested_set n k e) k' = (if k' = k then Some e else nested_get n k')"
  by (cases k; cases k')
     (auto simp: nested_get_def nested_set_def Let_def map_of_dict_set get_or_def
           split: option.splits)

lemma num_leaves_alt: "num_leaves n = sum_list (map (\<lambda>(level, scenes). scene_leaves scenes) n)"
  by (simp add: num_leaves_def scene_leaves_def)

lemma scene_leaves_set:
  "scene_leaves (dict_set scenes s (dict_set (get_or scenes s []) v e)) =
     (if map_of (get_or scenes s []) v = None then Suc (scene_leaves scenes) else scene_leaves scenes)"
proof (cases "map_of scenes s")
  case None
  then show ?thesis
    by (simp add: scene_leaves_def sum_dict_set_new get_or_def)
next
  case (Some variants)
  have "sum_list (map (\<lambda>(scene, variants). length variants) (dict_set scenes s (dict_set variants v e)))
          + length variants
        = scene_leaves scenes + length (dict_set variants v e)"
    using sum_dict_set_old [OF Some, of "\<lambda>(scene, variants). length variants"]
    by (simp add: scene_leaves_def)
  then show ?thesis
    using Some by (auto simp: scene_leaves_def get_or_def length_dict_set dict_has_def)
qed

lemma num_leaves_nested_set:
  "num_leaves (nested_set n k e) =
     (if nested_get n k = None then Suc (num_leaves n) else num_leaves n)"
proof -
  obtain l s v where k: "k = (l, s, v)" by (cases k) auto
  let ?scenes = "get_or n l []"
  let ?new = "dict_set ?scenes s (dict_set (get_or ?scenes s []) v e)"
  have ng: "nested_get n k = map_of (get_or ?scenes s []) v"
    by (auto simp: k nested_get_def get_or_def split: option.splits)
  have ns: "nested_set n k e = dict_set n l ?new"
    by (simp add: k nested_set_def Let_def)
  show ?thesis
  proof (cases "map_of n l")
    case None
    then have "num_leaves (dict_set n l ?new) = num_leaves n + scene_leaves ?new"
      by (simp add: num_leaves_alt sum_dict_set_new)
    moreover have "scene_leaves ?scenes = 0"
      using None by (simp add: get_or_def scene_leaves_def)
    ultimately show ?thesis
      unfolding ns ng by (simp add: scene_leaves_set)
  next
    case (Some scenes)
    have sc: "?scenes = scenes" using Some by (simp add: get_or_def)
    have "num_leaves (dict_set n l ?new) + scene_leaves scenes = num_leaves n + scene_leaves ?new"
      using sum_dict_set_old [OF Some, of "\<lambda>(level, scenes). scene_leaves scenes"]
      by (simp add: num_leaves_alt)
    then show ?thesis
      unfolding ns ng by (simp add: scene_leaves_set sc split: if_splits)
  qed
qed

lemma index_inv_empty: "index_inv ([], [])"
  by (simp add: index_inv_def dict_has_def nested_get_def dict_keys_def num_leaves_def
        split: prod.splits)

lemma dict_get_Inr: "dict_get d k = Inr v \<longleftrightarrow> map_of d k = Some v"
  by (simp add: dict_get_def split: option.splits)

lemma nested_lookup_Inr: "nested_lookup n k = Inr e \<longleftrightarrow> nested_get n k = Some e"
  by (simp add: nested_lookup_def split: option.splits)

lemma index_invI:
  assumes "\<And>k. dict_has dat k = (nested_get nested k \<noteq> None)"
    and "distinct (dict_keys dat)" and "length (dict_keys dat) = num_leaves nested"
  shows "index_inv (dat, nested)"
  using assms unfolding index_inv_def prod.case by blast

lemma index_inv_has: "index_inv (dat, nested) \<Longrightarrow> dict_has dat k = (nested_get nested k \<noteq> None)"
  unfolding index_inv_def prod.case by blast

lemma index_inv_distinct: "index_inv (dat, nested) \<Longrightarrow> distinct (dict_keys dat)"
  unfolding index_inv_def prod.case by blast

lemma index_inv_length: "index_inv (dat, nested) \<Longrightarrow> length (dict_keys dat) = num_leaves nested"
  unfolding index_inv_def prod.case by blast

lemma index_inv_insert:
  assumes inv: "index_inv (dat, nested)"
  shows "index_inv (if dict_has dat k then dat else dict_set dat k e0,
                    case nested_get nested k of None \<Rightarrow> nested_set nested k e1 | Some _ \<Rightarrow> nested)"
proof (cases "dict_has dat k")
  case True
  then have "nested_get nested k \<noteq> None" using index_inv_has [OF inv] by simp
  then obtain e where "nested_get nested k = Some e" by blast
  then show ?thesis using True inv by simp
next
  case False
  then have n: "nested_get nested k = None" using index_inv_has [OF inv] by simp
  have "index_inv (dict_set dat k e0, nested_set nested k e1)"
  proof (rule index_invI)
    fix k'
    show "dict_has (dict_set dat k e0) k' = (nested_get (nested_set nested k e1) k' \<noteq> None)"
      using index_inv_has [OF inv, of k']
      by (simp add: dict_has_dict_set nested_get_nested_set)
    show "distinct (dict_keys (dict_set dat k e0))"
      using index_inv_distinct [OF inv] by (simp add: dict_keys_def distinct_dict_set)
    show "length (dict_keys (dict_set dat k e0)) = num_leaves (nested_set nested k e1)"
      using index_inv_length [OF inv] False n
      by (simp add: dict_keys_def length_dict_set num_leaves_nested_set)
  qed
  then show ?thesis using False n by simp
qed

lemma index_inv_update:
  assumes inv: "index_inv (dat, nested)"
    and fr: "map_of dat k = Some r" and nr: "nested_get nested k = Some r'"
  shows "index_inv (dict_set dat k v, nested_set nested k v')"
proof (rule index_invI)
  have has: "dict_has dat k" using fr by (simp add: dict_has_def)
  fix k'
  show "dict_has (dict_set dat k v) k' = (nested_get (nested_set nested k v') k' \<noteq> None)"
    using index_inv_has [OF inv, of k'] has
    by (auto simp: dict_has_dict_set nested_get_nested_set)
  show "distinct (dict_keys (dict_set dat k v))"
    using index_inv_distinct [OF inv] by (simp add: dict_keys_def distinct_dict_set)
  show "length (dict_keys (dict_set dat k v)) = num_leaves (nested_set nested k v')"
    using index_inv_length [OF inv] has nr
    by (simp add: dict_keys_def length_dict_set num_leaves_nested_set)
qed

lemma organize_file_inv:
  assumes "index_inv state" "organize_file io dpath state filename = Inr state'"
  shows "index_inv state'"
proof -
  obtain dat nested where st: "state = (dat, nested)" by (cases state)
  from assms(2) obtain component k entry flat_record nested_record dat1 nested1
    where d1: "dat1 = (if dict_has dat k then dat else dict_set dat k [(''key'', KeyVal k)])"
      and n1: "nested1 = (case nested_get nested k of
                            None \<Rightarrow> nested_set nested k [(''key'', KeyVal k)] | Some _ \<Rightarrow> nested)"
      and fr: "map_of dat1 k = Some flat_record"
      and nr: "nested_get nested1 k = Some nested_record"
      and res: "state' = (dict_set dat1 k (dict_set flat_record component entry),
                          nested_set nested1 k (dict_set nested_record component entry))"
    unfolding st organize_file_def
    by (auto simp: Let_def bindE_eq_Inr dict_get_Inr nested_lookup_Inr)
  have "index_inv (dat1, nested1)"
    unfolding d1 n1 using assms(1) [unfolded st] by (rule index_inv_insert)
  then show ?thesis unfolding res using fr nr by (rule index_inv_update)
qed

lemma foldE_inv:
  assumes "\<And>s x s'. P s \<Longrightarrow> f s x = Inr s' \<Longrightarrow> P s'"
  shows "P s \<Longrightarrow> foldE f xs s = Inr s' \<Longrightarrow> P s'"
proof (induction xs arbitrary: s)
  case Nil
  then show ?case by simp
next
  case (Cons x xs)
  from Cons.prems(2) obtain s1 where s1: "f s x = Inr s1" and rest: "foldE f xs s1 = Inr s'"
    by (auto simp: bindE_eq_Inr)
  have "P s1" using assms [OF Cons.prems(1) s1] .
  then show ?case using rest by (rule Cons.IH)
qed

lemma organize_data_inv:
  assumes "organize_data io dpath = Inr state"
  shows "index_inv state"
proof -
  from assms obtain filenames
    where run: "foldE (organize_file io dpath) filenames ([], []) = Inr state"
    by (auto simp: organize_data_def bindE_eq_Inr)
  have step: "index_inv s'" if "index_inv s" "organize_file io dpath s x = Inr s'" for s x s'
    using that by (rule organize_file_inv)
  show ?thesis
    using step index_inv_empty run by (rule foldE_inv)
qed

lemma level_split_key_total:
  assumes "k \<in> set (dict_keys (pdata self))"
  shows "\<exists>s'. level_split_key self L s k = Inr s'"
proof -
  from assms have "map_of (pdata self) k \<noteq> None"
    by (simp add: dict_keys_def map_of_eq_None_iff)
  then obtain e where "dict_get (pdata self) k = Inr e"
    by (auto simp: dict_get_def)
  then show ?thesis
    by (cases s) (simp add: level_split_key_def)
qed

lemma level_split_loop_total:
  "set ks \<subseteq> set (dict_keys (pdata self)) \<Longrightarrow> \<exists>s'. foldE (level_split_key self L) ks s = Inr s'"
proof (induction ks arbitrary: s)
  case Nil
  then show ?case by simp
next
  case (Cons k ks)
  from Cons.prems have "k \<in> set (dict_keys (pdata self))" by simp
  then obtain s1 where s1: "level_split_key self L s k = Inr s1"
    using level_split_key_total by blast
  from Cons.prems have "set ks \<subseteq> set (dict_keys (pdata self))" by simp
  then obtain s' where "foldE (level_split_key self L) ks s1 = Inr s'"
    using Cons.IH by blast
  then show ?case using s1 by simp
qed

lemma level_split_key_keys:
  assumes "level_split_key self L (sd, sn) k = Inr (sd', sn')" "k \<notin> set (dict_keys sd)"
  shows "dict_keys sd' = dict_keys sd @ filter (\<lambda>k. fst k = L) [k]"
  using assms
  by (auto simp: level_split_key_def bindE_eq_Inr dict_keys_def keys_dict_set split: if_splits)

lemma level_split_loop_keys:
  "foldE (level_split_key self L) ks (sd, sn) = Inr (sd', sn') \<Longrightarrow> distinct (dict_keys sd @ ks) \<Longrightarrow>
     dict_keys sd' = dict_keys sd @ filter (\<lambda>k. fst k = L) ks"
proof (induction ks arbitrary: sd sn)
  case Nil
  then show ?case by simp
next
  case (Cons k ks)
  from Cons.prems(1) obtain sd1 sn1
    where s1: "level_split_key self L (sd, sn) k = Inr (sd1, sn1)"
      and rest: "foldE (level_split_key self L) ks (sd1, sn1) = Inr (sd', sn')"
    by (auto simp: bindE_eq_Inr)
  have notin: "k \<notin> set (dict_keys sd)" using Cons.prems(2) by auto
  have k1: "dict_keys sd1 = dict_keys sd @ filter (\<lambda>k. fst k = L) [k]"
    using s1 notin by (rule level_split_key_keys)
  have "distinct (dict_keys sd1 @ ks)"
    using Cons.prems(2) unfolding k1 by auto
  then have "dict_keys sd' = dict_keys sd1 @ filter (\<lambda>k. fst k = L) ks"
    using Cons.IH [OF rest] by simp
  then show ?case unfolding k1 by simp
qed

lemma level_split_keys:
  assumes "distinct (dict_keys (pdata self))"
  shows "\<exists>split. level_split io self L = Inr split
           \<and> dict_keys (pdata split) = filter (\<lambda>k. fst k = L) (dict_keys (pdata self))
           \<and> keylist split = dict_keys (pdata split)"
proof -
  obtain sd sn where run: "foldE (level_split_key self L) (dict_keys (pdata self)) ([], []) = Inr (sd, sn)"
    using level_split_loop_total [of "dict_keys (pdata self)" self L "([], [])"] by auto
  have "dict_keys sd = filter (\<lambda>k. fst k = L) (dict_keys (pdata self))"
    using level_split_loop_keys [OF run] assms by (simp add: dict_keys_def)
  then show ?thesis
    by (simp add: level_split_def run PoseData_init_def)
qed

lemma PoseData_init_scan:
  assumes "PoseData_init io dpath mpath None = Inr self"
  shows "index_inv (pdata self, nested_data self)"
proof -
  from assms obtain objs dat nested
    where od: "organize_data io (path_join dpath DATA_FOLDERNAME) = Inr (dat, nested)"
      and self: "self = \<lparr> data_path = dpath, models_path = mpath, objects = objs, pdata = dat,
                nested_data = nested, keylist = dict_keys dat \<rparr>"
    by (auto simp: PoseData_init_def bindE_eq_Inr)
  show ?thesis using organize_data_inv [OF od] by (simp add: self)
qed

text \<open>
  C8: for every \<open>PoseData\<close> instance built by scanning a directory, the flat mapping has
  as many keys as the nested mapping has (level, scene, variant) leaves; and for every
  level L, \<open>level_split(L)\<close> returns an instance whose flat keys are the instance's keys of
  level L, in order, so each has level L.
\<close>

theorem scanned_index_counts_and_level_split:
  assumes "PoseData_init io dpath mpath None = Inr self"
  shows "distinct (dict_keys (pdata self))
       \<and> length (dict_keys (pdata self)) = num_leaves (nested_data self)
       \<and> (\<exists>split. level_split io self L = Inr split
             \<and> dict_keys (pdata split) = filter (\<lambda>k. fst k = L) (dict_keys (pdata self))
             \<and> (\<forall>k \<in> set (dict_keys (pdata split)). fst k = L))"
proof -
  have inv: "index_inv (pdata self, nested_data self)"
    using assms by (rule PoseData_init_scan)
  have d: "distinct (dict_keys (pdata self))" using inv by (rule index_inv_distinct)
  have n: "length (dict_keys (pdata self)) = num_leaves (nested_data self)"
    using inv by (rule index_inv_length)
  obtain split where s: "level_split io self L = Inr split"
    and k: "dict_keys (pdata split) = filter (\<lambda>k. fst k = L) (dict_keys (pdata self))"
    using level_split_keys [OF d] by blast
  have "\<forall>k \<in> set (dict_keys (pdata split)). fst k = L"
    unfolding k by simp
  then show ?thesis using d n s k by blast
qed

theorem scanned_index_counts_and_level_split_witness:
  "PoseData_init demo_env ''root'' ''models'' None = Inr demo_index
   \<and> length (dict_keys (pdata demo_index)) = 2
   \<and> num_leaves (nested_data demo_index) = 2
   \<and> (\<exists>split. level_split demo_env demo_index 2 = Inr split
         \<and> dict_keys (pdata split) = [(2, 3, 4)])"
proof -
  have init: "PoseData_init demo_env ''root'' ''models'' None = Inr demo_index"
    by code_simp
  have keys: "dict_keys (pdata demo_index) = [(1, 1, 0), (2, 3, 4)]"
    by (simp add: demo_index_def dict_keys_def)
  note scanned = scanned_index_counts_and_level_split [OF init, of 2]
  have len: "length (dict_keys (pdata demo_index)) = 2"
    by (simp add: keys)
  have leaves: "num_leaves (nested_data demo_index) = 2"
    using scanned len by simp
  obtain split where "level_split demo_env demo_index 2 = Inr split"
    and "dict_keys (pdata split) = filter (\<lambda>k. fst k = 2) (dict_keys (pdata demo_index))"
    using scanned by blast
  then have "\<exists>split. level_split demo_env demo_index 2 = Inr split
                \<and> dict_keys (pdata split) = [(2, 3, 4)]"
    by (simp add: keys)
  then show ?thesis
    using init len leaves by blast
qed

text \<open>
  C9: for every integer i, \<open>__getitem__(i)\<close> replaces the integer by the tuple (1,): the
  result is the nested sub-map of level 1, or \<open>KeyError\<close> when level 1 is absent,
  whatever i is; it is never a record.
\<close>

theorem getitem_int_is_level_1:
  "getitem self (IntIndex i) =
     (case map_of (nested_data self) 1 of
        None \<Rightarrow> Inl KeyError
      | Some scenes \<Rightarrow> Inr (Scenes scenes))
   \<and> getitem self (IntIndex i) = getitem self (TupleIndex [1])
   \<and> (\<forall>e. getitem self (IntIndex i) \<noteq> Inr (Record e))"
  by (simp add: getitem_def dict_get_def split: option.splits)

section \<open>Properties of the modulated ViT block\<close>

text \<open>
  C10, as stated: for every input tensor \<open>forward\<close> raises the unbound-variable error.
  This fails on an input that is not 3-dimensional: the assertion of line 40 raises
  first.  Here the input is a 2-dimensional tensor of shape [1, 1].
\<close>

theorem vit_forward_2d_counterexample:
  "vit_forward id_block \<lparr> shape = [1, 1], data = [0] \<rparr> \<noteq> Inl UnboundLocalError"
  by (simp add: vit_forward_def ndim_def)

text \<open>
  C10, amended: \<open>forward\<close> never returns a result.  On a 3-dimensional input it raises
  the unbound-variable error; on any other input the assertion of line 40 fails.
\<close>

theorem vit_forward_never_returns:
  "vit_forward self input =
     (if ndim input = 3 then Inl UnboundLocalError else Inl AssertionError)
   \<and> (\<forall>y. vit_forward self input \<noteq> Inr y)"
  by (simp add: vit_forward_def read_local_def)

end
